theory Spec2Isabelle
  imports
    Main
    "HOL-Library.AList"
    "HOL-Library.Sublist"
    "HOL-Library.Option_ord"
    "HOL-Library.Product_Lexorder"
    "HOL-Library.Multiset"
begin

section \<open>Values, errors and dictionaries\<close>

text \<open>
  The Python values that \<^verbatim>\<open>eta/core/serial.py\<close> handles. A JSON document is a value
  built from \<open>PNone\<close>, \<open>PBool\<close>, \<open>PInt\<close>, \<open>PStr\<close>, \<open>PList\<close> and \<open>PDict\<close> (with
  \<open>PStr\<close> keys). A dictionary (\<^verbatim>\<open>dict\<close> or \<^verbatim>\<open>OrderedDict\<close>) is an association list
  in insertion order. An object is named by the identifier of its class:
  \<open>PObject c vars\<close> is an instance of a user-defined class with instance dictionary
  \<open>vars\<close>, \<open>PContainer c es\<close> an instance of a \<^verbatim>\<open>Container\<close> subclass whose element
  attribute holds the list \<open>es\<close>, \<open>PSet c kvs\<close> an instance of a \<^verbatim>\<open>Set\<close> subclass whose
  element attribute holds the ordered dictionary \<open>kvs\<close>.
  Floats, tuples, Python sets and object identity are not modelled: values are compared
  structurally.
\<close>

datatype pyval =
    PNone
  | PBool bool
  | PInt int
  | PStr string
  | PList "pyval list"
  | PDict "(pyval \<times> pyval) list"
  | PObject string "(string \<times> pyval) list"
  | PContainer string "pyval list"
  | PSet string "(pyval \<times> pyval) list"

text \<open>
  The exceptions raised by the modelled code. The four \<^verbatim>\<open>ValueError\<close>s of
  \<^verbatim>\<open>load_json\<close> are kept apart: the decoder's own, the failed unpacking of
  \<^verbatim>\<open>key, value = chunk.split("=")\<close>, and the two messages of the module. A fifth
  \<^verbatim>\<open>ValueError\<close> is that of \<^verbatim>\<open>__import__\<close> on an empty module name.
\<close>

datatype error =
    JSONDecodeError
  | UnpackError
  | UnableToLoadJSON string
  | UnableToParseJSONFile string
  | EmptyModuleName
  | NotImplementedError string
  | ImportError
  | AttributeError
  | KeyError
  | TypeError
  | IOError
  | ContainerError
  | SetError

fun is_ValueError :: "error \<Rightarrow> bool" where
  "is_ValueError JSONDecodeError = True"
| "is_ValueError UnpackError = True"
| "is_ValueError (UnableToLoadJSON s) = True"
| "is_ValueError (UnableToParseJSONFile s) = True"
| "is_ValueError EmptyModuleName = True"
| "is_ValueError e = False"

text \<open>\<^verbatim>\<open>k in d\<close> for a string \<open>k\<close>: key membership in a dictionary, element membership in
  a list, substring test in a string, \<^verbatim>\<open>TypeError\<close> otherwise.\<close>

fun py_in :: "string \<Rightarrow> pyval \<Rightarrow> error + bool" where
  "py_in k (PDict kvs) = Inr (PStr k \<in> set (map fst kvs))"
| "py_in k (PList xs) = Inr (PStr k \<in> set xs)"
| "py_in k (PStr s) = Inr (sublist k s)"
| "py_in k v = Inl TypeError"

text \<open>\<^verbatim>\<open>d.pop(k)\<close>: the value removed and the dictionary after the removal.\<close>

fun py_pop :: "string \<Rightarrow> pyval \<Rightarrow> error + (pyval \<times> pyval)" where
  "py_pop k (PDict kvs) =
     (case map_of kvs (PStr k) of
        None \<Rightarrow> Inl KeyError
      | Some v \<Rightarrow> Inr (v, PDict (AList.delete (PStr k) kvs)))"
| "py_pop k (PList xs) = Inl TypeError"
| "py_pop k v = Inl AttributeError"

text \<open>\<^verbatim>\<open>d[k]\<close> for a key that is a string or \<^verbatim>\<open>None\<close>.\<close>

fun py_getitem :: "pyval \<Rightarrow> pyval \<Rightarrow> error + pyval" where
  "py_getitem (PDict kvs) k = (case map_of kvs k of None \<Rightarrow> Inl KeyError | Some v \<Rightarrow> Inr v)"
| "py_getitem v k = Inl TypeError"

text \<open>The values a \<^verbatim>\<open>for\<close> loop over a JSON value visits: the elements of a list, the
  keys of a dictionary, the characters of a string.\<close>

fun py_iter :: "pyval \<Rightarrow> error + pyval list" where
  "py_iter (PList xs) = Inr xs"
| "py_iter (PDict kvs) = Inr (map fst kvs)"
| "py_iter (PStr s) = Inr (map (\<lambda>c. PStr [c]) s)"
| "py_iter v = Inl TypeError"

text \<open>\<^verbatim>\<open>isinstance(d, dict)\<close> and the keys of a dictionary.\<close>

fun is_dict :: "pyval \<Rightarrow> bool" where
  "is_dict (PDict kvs) = True"
| "is_dict v = False"

fun dict_keys :: "pyval \<Rightarrow> pyval set" where
  "dict_keys (PDict kvs) = set (map fst kvs)"
| "dict_keys v = {}"

text \<open>\<^verbatim>\<open>bool(v)\<close>, as the \<^verbatim>\<open>or\<close> of \<^verbatim>\<open>Set.add\<close> applies it; \<^verbatim>\<open>Container\<close> and
  \<^verbatim>\<open>Set\<close> define \<^verbatim>\<open>__bool__\<close> as \<^verbatim>\<open>size > 0\<close>.\<close>

fun truthy :: "pyval \<Rightarrow> bool" where
  "truthy PNone = False"
| "truthy (PBool b) = b"
| "truthy (PInt i) = (i \<noteq> 0)"
| "truthy (PStr s) = (s \<noteq> [])"
| "truthy (PList xs) = (xs \<noteq> [])"
| "truthy (PDict kvs) = (kvs \<noteq> [])"
| "truthy (PObject c vars) = True"
| "truthy (PContainer c es) = (es \<noteq> [])"
| "truthy (PSet c kvs) = (kvs \<noteq> [])"

text \<open>Lists and dictionaries cannot be dictionary keys.\<close>

fun hashable :: "pyval \<Rightarrow> bool" where
  "hashable (PList xs) = False"
| "hashable (PDict kvs) = False"
| "hashable v = True"

text \<open>\<^verbatim>\<open>getattr(obj, name)\<close> on the instance dictionary of a plain object.\<close>

fun py_getattr :: "pyval \<Rightarrow> string \<Rightarrow> error + pyval" where
  "py_getattr (PObject c vars) a =
     (case map_of vars a of None \<Rightarrow> Inl AttributeError | Some v \<Rightarrow> Inr v)"
| "py_getattr v a = Inl AttributeError"

section \<open>Classes and the module table\<close>

text \<open>
  A class is known by an identifier. Its record holds what the code reads from it: the
  module and name (\<^verbatim>\<open>etau.get_class_name\<close>), its proper superclasses in method
  resolution order, the four class attributes that \<^verbatim>\<open>Set\<close> and \<^verbatim>\<open>Container\<close>
  subclasses configure (\<open>None\<close> is Python's \<^verbatim>\<open>None\<close>), and the \<^verbatim>\<open>from_dict\<close> and
  \<^verbatim>\<open>serialize\<close> methods that the class defines itself, if it does; such a method is
  code outside the repository and is taken as a function that does not mutate its
  argument. Subclasses that override other methods (\<^verbatim>\<open>__init__\<close>,
  \<^verbatim>\<open>attributes\<close>) are not modelled.
\<close>

record pyclass =
  cls_module :: string
  cls_name :: string
  bases :: "string list"
  ELE_CLS :: "string option"
  ELE_KEY_ATTR :: "string option"
  ELE_CLS_FIELD :: "string option"
  ELE_ATTR :: "string option"
  own_from_dict :: "(pyval \<Rightarrow> error + pyval) option"
  own_serialize :: "(pyval \<Rightarrow> bool \<Rightarrow> pyval) option"

text \<open>
  The environment of a run: the user-defined classes, \<^verbatim>\<open>sys.modules\<close> as
  \<^verbatim>\<open>__import__\<close> leaves it (module name to namespace, a namespace binding names to
  classes), and the string that the \<open>n\<close>-th call of \<^verbatim>\<open>str(uuid4())\<close> returns.
\<close>

record world =
  user_classes :: "string \<Rightarrow> pyclass"
  sys_modules :: "string \<rightharpoonup> (string \<rightharpoonup> string)"
  uuid4_str :: "nat \<Rightarrow> string"

definition Serializable_class :: pyclass where
  "Serializable_class =
     \<lparr>cls_module = ''eta.core.serial'', cls_name = ''Serializable'', bases = [],
      ELE_CLS = None, ELE_KEY_ATTR = None, ELE_CLS_FIELD = None, ELE_ATTR = None,
      own_from_dict = None, own_serialize = None\<rparr>"

definition Set_class :: pyclass where
  "Set_class =
     \<lparr>cls_module = ''eta.core.serial'', cls_name = ''Set'', bases = [''Serializable''],
      ELE_CLS = None, ELE_KEY_ATTR = None, ELE_CLS_FIELD = Some ''_ELEMENT_CLS'',
      ELE_ATTR = Some ''elements'', own_from_dict = None, own_serialize = None\<rparr>"

definition Container_class :: pyclass where
  "Container_class =
     \<lparr>cls_module = ''eta.core.serial'', cls_name = ''Container'', bases = [''Serializable''],
      ELE_CLS = None, ELE_KEY_ATTR = None, ELE_CLS_FIELD = Some ''_ELEMENT_CLS'',
      ELE_ATTR = Some ''elements'', own_from_dict = None, own_serialize = None\<rparr>"

definition class_of :: "world \<Rightarrow> string \<Rightarrow> pyclass" where
  "class_of W c =
     (if c = ''Serializable'' then Serializable_class
      else if c = ''Set'' then Set_class
      else if c = ''Container'' then Container_class
      else user_classes W c)"

definition issubclass :: "world \<Rightarrow> string \<Rightarrow> string \<Rightarrow> bool" where
  "issubclass W c b = (b \<in> set (c # bases (class_of W c)))"

fun type_of :: "pyval \<Rightarrow> string option" where
  "type_of (PObject c vars) = Some c"
| "type_of (PContainer c es) = Some c"
| "type_of (PSet c kvs) = Some c"
| "type_of v = None"

definition isinstance :: "world \<Rightarrow> pyval \<Rightarrow> string \<Rightarrow> bool" where
  "isinstance W v b = (case type_of v of None \<Rightarrow> False | Some c \<Rightarrow> issubclass W c b)"

text \<open>Which of \<^verbatim>\<open>Set\<close> and \<^verbatim>\<open>Container\<close> comes first in the method resolution order
  of a class decides whose \<^verbatim>\<open>__init__\<close>, \<^verbatim>\<open>from_dict\<close> and class attributes it
  inherits; a class with neither is a plain \<^verbatim>\<open>Serializable\<close>.\<close>

datatype kind = SetKind | ContainerKind | PlainKind

definition kind_of :: "world \<Rightarrow> string \<Rightarrow> kind" where
  "kind_of W c =
     (case find (\<lambda>b. b = ''Set'' \<or> b = ''Container'') (c # bases (class_of W c)) of
        None \<Rightarrow> PlainKind
      | Some b \<Rightarrow> if b = ''Set'' then SetKind else ContainerKind)"

text \<open>\<^verbatim>\<open>etau.get_class_name\<close> and \<^verbatim>\<open>etau.get_class\<close> of \<^verbatim>\<open>eta/core/utils.py\<close>.\<close>

definition get_class_name :: "world \<Rightarrow> string \<Rightarrow> string" where
  "get_class_name W c = cls_module (class_of W c) @ ''.'' @ cls_name (class_of W c)"

definition rsplit_dot :: "string \<Rightarrow> (string \<times> string) option" where
  "rsplit_dot s =
     (if CHR ''.'' \<in> set s
      then Some (rev (tl (dropWhile (\<lambda>c. c \<noteq> CHR ''.'') (rev s))),
                 rev (takeWhile (\<lambda>c. c \<noteq> CHR ''.'') (rev s)))
      else None)"

definition get_class :: "world \<Rightarrow> pyval \<Rightarrow> error + string" where
  "get_class W class_name =
     (case class_name of
        PStr s \<Rightarrow>
          (case rsplit_dot s of
             None \<Rightarrow> Inl ImportError
           | Some (module_name, name) \<Rightarrow>
               if module_name = [] then Inl EmptyModuleName
               else
                 (case sys_modules W module_name of
                    None \<Rightarrow> Inl ImportError
                  | Some namespace \<Rightarrow>
                      (case namespace name of
                         None \<Rightarrow> Inl AttributeError
                       | Some c \<Rightarrow> Inr c)))
      | _ \<Rightarrow> Inl AttributeError)"

section \<open>Serialization\<close>

text \<open>The first error of a list of results, in evaluation order, or all the values.\<close>

fun sequence :: "(error + 'a) list \<Rightarrow> error + 'a list" where
  "sequence [] = Inr []"
| "sequence (r # rs) =
     (case r of
        Inl e \<Rightarrow> Inl e
      | Inr v \<Rightarrow> (case sequence rs of Inl e \<Rightarrow> Inl e | Inr vs \<Rightarrow> Inr (v # vs)))"

text \<open>A class attribute used as a dictionary key: a string, or \<^verbatim>\<open>None\<close>.\<close>

definition attr_key :: "string option \<Rightarrow> pyval" where
  "attr_key a = (case a of None \<Rightarrow> PNone | Some s \<Rightarrow> PStr s)"

text \<open>\<^verbatim>\<open>d[k] = v\<close> for each pair in turn.\<close>

definition dict_update_all :: "(pyval \<times> pyval) list \<Rightarrow> (pyval \<times> pyval) list \<Rightarrow> (pyval \<times> pyval) list" where
  "dict_update_all d kvs = foldl (\<lambda>d kv. AList.update (fst kv) (snd kv) d) d kvs"

text \<open>The head of a \<^verbatim>\<open>Set\<close> or \<^verbatim>\<open>Container\<close> dictionary: in reflective mode the class
  name under \<^verbatim>\<open>"_CLS"\<close>, then the element class name under the class's
  \<^verbatim>\<open>_ELE_CLS_FIELD\<close>. \<^verbatim>\<open>etau.get_class_name(None)\<close> raises \<^verbatim>\<open>AttributeError\<close>.\<close>

definition reflective_head :: "world \<Rightarrow> string \<Rightarrow> bool \<Rightarrow> error + (pyval \<times> pyval) list" where
  "reflective_head W c reflective =
     (if reflective then
        (case ELE_CLS (class_of W c) of
           None \<Rightarrow> Inl AttributeError
         | Some ele_cls \<Rightarrow>
             Inr (AList.update (attr_key (ELE_CLS_FIELD (class_of W c))) (PStr (get_class_name W ele_cls))
                   (AList.update (PStr ''_CLS'') (PStr (get_class_name W c)) [])))
      else Inr [])"

text \<open>
  \<open>serialize W v reflective\<close> is the method call \<^verbatim>\<open>v.serialize(reflective)\<close>, resolved
  by the class of \<open>v\<close>: \<^verbatim>\<open>Container.serialize\<close> (which serializes its elements through
  \<^verbatim>\<open>Serializable.serialize\<close> with \<^verbatim>\<open>reflective=False\<close>), \<^verbatim>\<open>Set.serialize\<close>, the
  class's own method, or \<^verbatim>\<open>Serializable.serialize\<close> over \<^verbatim>\<open>attributes()\<close>, the
  names in \<^verbatim>\<open>vars(self)\<close> that do not start with an underscore.
  \<open>recurse\<close> is \<^verbatim>\<open>_recurse\<close>.
\<close>

function serialize :: "world \<Rightarrow> pyval \<Rightarrow> bool \<Rightarrow> error + pyval"
  and recurse :: "world \<Rightarrow> pyval \<Rightarrow> bool \<Rightarrow> error + pyval" where
  "serialize W v reflective =
     (case v of
        PContainer c es \<Rightarrow>
          (case reflective_head W c reflective of
             Inl e \<Rightarrow> Inl e
           | Inr d \<Rightarrow>
               (case ELE_ATTR (class_of W c) of
                  None \<Rightarrow> Inl TypeError
                | Some attr \<Rightarrow>
                    (case sequence (map (\<lambda>vi. recurse W vi False) es) of
                       Inl e \<Rightarrow> Inl e
                     | Inr l \<Rightarrow> Inr (PDict (dict_update_all d [(PStr attr, PList l)])))))
      | PSet c kvs \<Rightarrow>
          (case reflective_head W c reflective of
             Inl e \<Rightarrow> Inl e
           | Inr d \<Rightarrow>
               (case ELE_ATTR (class_of W c) of
                  None \<Rightarrow> Inl TypeError
                | Some attr \<Rightarrow>
                    (case sequence (map (\<lambda>kv. recurse W (snd kv) reflective) kvs) of
                       Inl e \<Rightarrow> Inl e
                     | Inr l \<Rightarrow> Inr (PDict (AList.update (PStr attr) (PList l) d)))))
      | PObject c vars \<Rightarrow>
          (case own_serialize (class_of W c) of
             Some f \<Rightarrow> Inr (f v reflective)
           | None \<Rightarrow>
               (let attributes = filter (\<lambda>kv. \<not> prefix ''_'' (fst kv)) vars;
                    d = (if reflective then [(PStr ''_CLS'', PStr (get_class_name W c))] else [])
                in case sequence (map (\<lambda>kv. recurse W (snd kv) reflective) attributes) of
                     Inl e \<Rightarrow> Inl e
                   | Inr l \<Rightarrow> Inr (PDict (dict_update_all d (zip (map (\<lambda>kv. PStr (fst kv)) attributes) l)))))
      | _ \<Rightarrow> Inl AttributeError)"
| "recurse W v reflective =
     (if isinstance W v ''Serializable'' then serialize W v reflective
      else
        (case v of
           PList xs \<Rightarrow>
             (case sequence (map (\<lambda>vi. recurse W vi reflective) xs) of
                Inl e \<Rightarrow> Inl e
              | Inr l \<Rightarrow> Inr (PList l))
         | PDict kvs \<Rightarrow>
             (case sequence (map (\<lambda>kv. recurse W (snd kv) reflective) kvs) of
                Inl e \<Rightarrow> Inl e
              | Inr l \<Rightarrow> Inr (PDict (zip (map fst kvs) l)))
         | _ \<Rightarrow> Inr v))"
  by pat_completeness auto
termination
proof (relation "measure (\<lambda>x. case x of Inl (W, v, r) \<Rightarrow> 2 * size v | Inr (W, v, r) \<Rightarrow> 2 * size v + 1)")
  show "wf (measure (\<lambda>x. case x of Inl (W, v, r) \<Rightarrow> 2 * size v | Inr (W, v, r) \<Rightarrow> 2 * size v + 1))"
    by simp
next
  fix W :: world and v :: pyval and reflective :: bool and c es vi
  assume "v = PContainer c es" and "vi \<in> set es"
  then show "(Inr (W, vi, False), Inl (W, v, reflective))
      \<in> measure (\<lambda>x. case x of Inl (W, v, r) \<Rightarrow> 2 * size v | Inr (W, v, r) \<Rightarrow> 2 * size v + 1)"
    using size_list_estimation' [of vi es "size vi" size] by simp
next
  fix W :: world and v :: pyval and reflective :: bool and c and kvs :: "(pyval \<times> pyval) list" and kv
  assume "v = PSet c kvs" and "kv \<in> set kvs"
  then show "(Inr (W, snd kv, reflective), Inl (W, v, reflective))
      \<in> measure (\<lambda>x. case x of Inl (W, v, r) \<Rightarrow> 2 * size v | Inr (W, v, r) \<Rightarrow> 2 * size v + 1)"
    using size_list_estimation' [of kv kvs "size (snd kv)" "size_prod size size"]
    by (cases kv) simp
next
  fix W :: world and v :: pyval and reflective :: bool and c and vars :: "(string \<times> pyval) list"
    and attributes d kv
  assume "v = PObject c vars" and "attributes = filter (\<lambda>kv. \<not> prefix ''_'' (fst kv)) vars"
    and "kv \<in> set attributes"
  then have "kv \<in> set vars" by simp
  with \<open>v = PObject c vars\<close>
  show "(Inr (W, snd kv, reflective), Inl (W, v, reflective))
      \<in> measure (\<lambda>x. case x of Inl (W, v, r) \<Rightarrow> 2 * size v | Inr (W, v, r) \<Rightarrow> 2 * size v + 1)"
    using size_list_estimation' [of kv vars "size (snd kv)" "size_prod (\<lambda>_. 0) size"]
    by (cases kv) simp
next
  fix W :: world and v :: pyval and reflective :: bool
  show "(Inl (W, v, reflective), Inr (W, v, reflective))
      \<in> measure (\<lambda>x. case x of Inl (W, v, r) \<Rightarrow> 2 * size v | Inr (W, v, r) \<Rightarrow> 2 * size v + 1)"
    by simp
next
  fix W :: world and v :: pyval and reflective :: bool and xs vi
  assume "v = PList xs" and "vi \<in> set xs"
  then show "(Inr (W, vi, reflective), Inr (W, v, reflective))
      \<in> measure (\<lambda>x. case x of Inl (W, v, r) \<Rightarrow> 2 * size v | Inr (W, v, r) \<Rightarrow> 2 * size v + 1)"
    using size_list_estimation' [of vi xs "size vi" size] by simp
next
  fix W :: world and v :: pyval and reflective :: bool and kvs :: "(pyval \<times> pyval) list" and kv
  assume "v = PDict kvs" and "kv \<in> set kvs"
  then show "(Inr (W, snd kv, reflective), Inr (W, v, reflective))
      \<in> measure (\<lambda>x. case x of Inl (W, v, r) \<Rightarrow> 2 * size v | Inr (W, v, r) \<Rightarrow> 2 * size v + 1)"
    using size_list_estimation' [of kv kvs "size (snd kv)" "size_prod size size"]
    by (cases kv) simp
qed

declare serialize.simps [simp del] recurse.simps [simp del]

section \<open>Iterables, filters and sorting\<close>

text \<open>
  An iterable passed to a constructor or to \<^verbatim>\<open>add_iterable\<close>: a list, or a one-shot
  iterator (a generator) that will still yield the given values. A \<^verbatim>\<open>for\<close> loop
  that runs to the end visits these values; a list is left as it was, an iterator is
  left exhausted.
\<close>

datatype pyarg = ListArg "pyval list" | GenArg "pyval list"

fun iterate :: "pyarg \<Rightarrow> pyval list \<times> pyarg" where
  "iterate (ListArg xs) = (xs, ListArg xs)"
| "iterate (GenArg xs) = (xs, GenArg [])"

text \<open>The builtins \<^verbatim>\<open>any\<close> and \<^verbatim>\<open>all\<close>, on the outputs of the filters.\<close>

definition py_any :: "bool list \<Rightarrow> bool" where
  "py_any bs = list_ex (\<lambda>b. b) bs"

definition py_all :: "bool list \<Rightarrow> bool" where
  "py_all bs = list_all (\<lambda>b. b) bs"

text \<open>
  \<^verbatim>\<open>sorted(xs, reverse=reverse, key=key)\<close>: a stable sort by \<open>key\<close>; with
  \<^verbatim>\<open>reverse\<close> the list is reversed, sorted and reversed again, so that equal keys keep
  their order. The keys are compared as Python compares tuples, lexicographically.
\<close>

definition py_sorted :: "('a \<Rightarrow> 'k::linorder) \<Rightarrow> bool \<Rightarrow> 'a list \<Rightarrow> 'a list" where
  "py_sorted key reverse xs = (if reverse then rev (sort_key key (rev xs)) else sort_key key xs)"

text \<open>\<^verbatim>\<open>OrderedDict(pairs)\<close>.\<close>

definition ordered_dict :: "(pyval \<times> pyval) list \<Rightarrow> (pyval \<times> pyval) list" where
  "ordered_dict pairs = foldl (\<lambda>d kv. AList.update (fst kv) (snd kv) d) [] pairs"

section \<open>Container\<close>

text \<open>
  The methods of \<^verbatim>\<open>Container\<close> act on the list held in the element attribute of
  \<^verbatim>\<open>self\<close> and are given that list (and the class of \<^verbatim>\<open>self\<close> where they read
  it); a method that mutates returns the list after the call.
  \<open>Container_validate\<close> is \<^verbatim>\<open>_validate\<close>; on success it returns the element class
  and the element attribute that it has checked.
\<close>

definition Container_validate :: "world \<Rightarrow> string \<Rightarrow> error + (string \<times> string)" where
  "Container_validate W c =
     (case ELE_CLS (class_of W c) of
        None \<Rightarrow> Inl ContainerError
      | Some ele_cls \<Rightarrow>
          (case ELE_ATTR (class_of W c) of
             None \<Rightarrow> Inl ContainerError
           | Some attr \<Rightarrow>
               if \<not> issubclass W ele_cls ''Serializable'' then Inl ContainerError
               else Inr (ele_cls, attr)))"

definition Container_add :: "pyval list \<Rightarrow> pyval \<Rightarrow> pyval list" where
  "Container_add elements instance = elements @ [instance]"

fun Container_add_iterable :: "pyval list \<Rightarrow> pyarg \<Rightarrow> pyval list" where
  "Container_add_iterable self_elements (ListArg xs) = self_elements @ xs"
| "Container_add_iterable self_elements (GenArg xs) = foldl Container_add self_elements xs"

text \<open>The property \<^verbatim>\<open>size\<close>.\<close>

definition Container_size :: "pyval list \<Rightarrow> nat" where
  "Container_size elements = length elements"

text \<open>\<^verbatim>\<open>Container.__init__(self, **kwargs)\<close> for \<^verbatim>\<open>self\<close> of class \<open>c\<close>.\<close>

definition Container_init :: "world \<Rightarrow> string \<Rightarrow> (string \<times> pyarg) list \<Rightarrow> error + pyval" where
  "Container_init W c kwargs =
     (case Container_validate W c of
        Inl e \<Rightarrow> Inl e
      | Inr (ele_cls, attr) \<Rightarrow>
          if kwargs \<noteq> [] \<and> attr \<notin> set (map fst kwargs) then Inl ContainerError
          else
            (let elements = (case map_of kwargs attr of None \<Rightarrow> ListArg [] | Some a \<Rightarrow> a);
                 visited = fst (iterate elements);
                 elements' = snd (iterate elements)
             in if list_ex (\<lambda>e. \<not> isinstance W e ele_cls) visited then Inl ContainerError
                else Inr (PContainer c (Container_add_iterable [] elements'))))"

text \<open>\<^verbatim>\<open>_filter_elements\<close>, \<^verbatim>\<open>filter_elements\<close> (which stores the result in the
  element attribute) and \<^verbatim>\<open>get_matches\<close> (which returns
  \<^verbatim>\<open>self.__class__(**{self._ELE_ATTR: elements})\<close> and leaves \<^verbatim>\<open>self\<close> alone: the
  first component is the list of \<^verbatim>\<open>self\<close> after the call).\<close>

definition Container_priv_filter_elements ::
  "(pyval \<Rightarrow> bool) list \<Rightarrow> (bool list \<Rightarrow> bool) \<Rightarrow> pyval list \<Rightarrow> pyval list" where
  "Container_priv_filter_elements filters match elements =
     filter (\<lambda>o'. match (map (\<lambda>f. f o') filters)) elements"

definition Container_filter_elements ::
  "(pyval \<Rightarrow> bool) list \<Rightarrow> (bool list \<Rightarrow> bool) \<Rightarrow> pyval list \<Rightarrow> pyval list" where
  "Container_filter_elements filters match elements =
     Container_priv_filter_elements filters match elements"

definition Container_get_matches ::
  "world \<Rightarrow> string \<Rightarrow> (pyval \<Rightarrow> bool) list \<Rightarrow> (bool list \<Rightarrow> bool) \<Rightarrow> pyval list
     \<Rightarrow> pyval list \<times> (error + pyval)" where
  "Container_get_matches W c filters match elements =
     (elements,
      case ELE_ATTR (class_of W c) of
        None \<Rightarrow> Inl TypeError
      | Some attr \<Rightarrow>
          Container_init W c [(attr, ListArg (Container_priv_filter_elements filters match elements))])"

text \<open>\<^verbatim>\<open>sort_by\<close>. The attribute is given by its accessor \<^verbatim>\<open>getattr(ele, attr)\<close>, of a
  sortable attribute: its value is \<^verbatim>\<open>None\<close> or lies in one linearly ordered type.\<close>

definition field_none_last :: "(pyval \<Rightarrow> 'v option) \<Rightarrow> bool \<Rightarrow> pyval \<Rightarrow> bool \<times> 'v option" where
  "field_none_last attr reverse ele = ((attr ele = None) \<noteq> reverse, attr ele)"

definition Container_sort_by :: "(pyval \<Rightarrow> 'v::linorder option) \<Rightarrow> bool \<Rightarrow> pyval list \<Rightarrow> pyval list" where
  "Container_sort_by attr reverse elements =
     py_sorted (field_none_last attr reverse) reverse elements"

section \<open>Set\<close>

text \<open>
  The methods of \<^verbatim>\<open>Set\<close> act on the ordered dictionary held in the element attribute.
  Those that reach \<^verbatim>\<open>uuid4\<close> take the number of calls made so far and return it
  updated, also when they raise.
\<close>

definition Set_validate :: "world \<Rightarrow> string \<Rightarrow> error + (string \<times> string)" where
  "Set_validate W c =
     (case ELE_CLS (class_of W c) of
        None \<Rightarrow> Inl SetError
      | Some ele_cls \<Rightarrow>
          (case ELE_ATTR (class_of W c) of
             None \<Rightarrow> Inl SetError
           | Some attr \<Rightarrow>
               if \<not> issubclass W ele_cls ''Serializable'' then Inl SetError
               else if ELE_KEY_ATTR (class_of W c) = None then Inl SetError
               else Inr (ele_cls, attr)))"

text \<open>\<^verbatim>\<open>get_key\<close>; \<^verbatim>\<open>getattr(element, None)\<close> raises \<^verbatim>\<open>TypeError\<close>.\<close>

definition Set_get_key :: "world \<Rightarrow> string \<Rightarrow> pyval \<Rightarrow> error + pyval" where
  "Set_get_key W c element =
     (case ELE_KEY_ATTR (class_of W c) of
        None \<Rightarrow> Inl TypeError
      | Some key_attr \<Rightarrow> py_getattr element key_attr)"

text \<open>\<^verbatim>\<open>add\<close>: \<^verbatim>\<open>key = self.get_key(element) or str(uuid4())\<close>, then
  \<^verbatim>\<open>self.__elements__[key] = element\<close>, which replaces the value of a key that is
  present and appends a new key otherwise.\<close>

definition Set_add ::
  "world \<Rightarrow> string \<Rightarrow> (pyval \<times> pyval) list \<Rightarrow> pyval \<Rightarrow> nat \<Rightarrow> (error + (pyval \<times> pyval) list) \<times> nat" where
  "Set_add W c elements element n =
     (case Set_get_key W c element of
        Inl e \<Rightarrow> (Inl e, n)
      | Inr k \<Rightarrow>
          (let key = (if truthy k then k else PStr (uuid4_str W n));
               n' = (if truthy k then n else Suc n)
           in if hashable key then (Inr (AList.update key element elements), n')
              else (Inl TypeError, n')))"

fun Set_add_each ::
  "world \<Rightarrow> string \<Rightarrow> (pyval \<times> pyval) list \<Rightarrow> pyval list \<Rightarrow> nat \<Rightarrow> (error + (pyval \<times> pyval) list) \<times> nat" where
  "Set_add_each W c elements [] n = (Inr elements, n)"
| "Set_add_each W c elements (x # xs) n =
     (case Set_add W c elements x n of
        (Inl e, n') \<Rightarrow> (Inl e, n')
      | (Inr elements', n') \<Rightarrow> Set_add_each W c elements' xs n')"

text \<open>\<^verbatim>\<open>add_iterable\<close>: \<^verbatim>\<open>for element in elements: self.add(element)\<close>.\<close>

definition Set_add_iterable ::
  "world \<Rightarrow> string \<Rightarrow> (pyval \<times> pyval) list \<Rightarrow> pyarg \<Rightarrow> nat \<Rightarrow> (error + (pyval \<times> pyval) list) \<times> nat" where
  "Set_add_iterable W c self_elements elements n =
     Set_add_each W c self_elements (fst (iterate elements)) n"

definition Set_size :: "(pyval \<times> pyval) list \<Rightarrow> nat" where
  "Set_size elements = length elements"

definition Set_init ::
  "world \<Rightarrow> string \<Rightarrow> (string \<times> pyarg) list \<Rightarrow> nat \<Rightarrow> (error + pyval) \<times> nat" where
  "Set_init W c kwargs n =
     (case Set_validate W c of
        Inl e \<Rightarrow> (Inl e, n)
      | Inr (ele_cls, attr) \<Rightarrow>
          if kwargs \<noteq> [] \<and> attr \<notin> set (map fst kwargs) then (Inl SetError, n)
          else
            (let elements = (case map_of kwargs attr of None \<Rightarrow> ListArg [] | Some a \<Rightarrow> a);
                 visited = fst (iterate elements);
                 elements' = snd (iterate elements)
             in if list_ex (\<lambda>e. \<not> isinstance W e ele_cls) visited then (Inl SetError, n)
                else
                  (case Set_add_iterable W c [] elements' n of
                     (Inl e, n') \<Rightarrow> (Inl e, n')
                   | (Inr kvs, n') \<Rightarrow> (Inr (PSet c kvs), n'))))"

definition Set_priv_filter_elements ::
  "(pyval \<Rightarrow> bool) list \<Rightarrow> (bool list \<Rightarrow> bool) \<Rightarrow> (pyval \<times> pyval) list \<Rightarrow> (pyval \<times> pyval) list" where
  "Set_priv_filter_elements filters match elements =
     ordered_dict (filter (\<lambda>kv. match (map (\<lambda>f. f (snd kv)) filters)) elements)"

definition Set_filter_elements ::
  "(pyval \<Rightarrow> bool) list \<Rightarrow> (bool list \<Rightarrow> bool) \<Rightarrow> (pyval \<times> pyval) list \<Rightarrow> (pyval \<times> pyval) list" where
  "Set_filter_elements filters match elements = Set_priv_filter_elements filters match elements"

text \<open>\<^verbatim>\<open>get_matches\<close>: a deep copy of \<^verbatim>\<open>self\<close>, filtered in place and returned; the
  first component is the dictionary of \<^verbatim>\<open>self\<close> after the call.\<close>

definition Set_get_matches ::
  "string \<Rightarrow> (pyval \<Rightarrow> bool) list \<Rightarrow> (bool list \<Rightarrow> bool) \<Rightarrow> (pyval \<times> pyval) list
     \<Rightarrow> (pyval \<times> pyval) list \<times> pyval" where
  "Set_get_matches c filters match elements =
     (let new_set = elements
      in (elements, PSet c (Set_filter_elements filters match new_set)))"

definition Set_field_none_last ::
  "(pyval \<Rightarrow> 'v option) \<Rightarrow> bool \<Rightarrow> pyval \<times> pyval \<Rightarrow> bool \<times> 'v option" where
  "Set_field_none_last attr reverse key_ele_pair =
     ((attr (snd key_ele_pair) = None) \<noteq> reverse, attr (snd key_ele_pair))"

definition Set_sort_by ::
  "(pyval \<Rightarrow> 'v::linorder option) \<Rightarrow> bool \<Rightarrow> (pyval \<times> pyval) list \<Rightarrow> (pyval \<times> pyval) list" where
  "Set_sort_by attr reverse elements =
     ordered_dict (py_sorted (Set_field_none_last attr reverse) reverse elements)"

text \<open>\<^verbatim>\<open>cls(**kwargs)\<close> for a class that inherits \<^verbatim>\<open>__init__\<close> from \<^verbatim>\<open>Container\<close> or
  \<^verbatim>\<open>Set\<close>. The constructor of a plain class is code outside the repository; the
  modelled code never calls one, and the third case stands for it.\<close>

definition construct :: "world \<Rightarrow> string \<Rightarrow> (string \<times> pyarg) list \<Rightarrow> nat \<Rightarrow> (error + pyval) \<times> nat" where
  "construct W c kwargs n =
     (case kind_of W c of
        ContainerKind \<Rightarrow> (Container_init W c kwargs, n)
      | SetKind \<Rightarrow> Set_init W c kwargs n
      | PlainKind \<Rightarrow> (Inl TypeError, n))"

section \<open>Decoding\<close>

text \<open>
  The list comprehension \<^verbatim>\<open>[ele_cls.from_dict(dd) for dd in ...]\<close>: the elements are
  decoded in order, each call may mutate its dictionary and draw identifiers; the first
  error ends the loop. The result comes with the element dictionaries and the count of
  \<^verbatim>\<open>uuid4\<close> calls as the loop leaves them.
\<close>

fun decode_elements ::
  "(pyval \<Rightarrow> nat \<Rightarrow> (error + pyval) \<times> pyval \<times> nat) \<Rightarrow> pyval list \<Rightarrow> nat
     \<Rightarrow> (error + pyval list) \<times> pyval list \<times> nat" where
  "decode_elements f [] n = (Inr [], [], n)"
| "decode_elements f (dd # dds) n =
     (case f dd n of
        (Inl e, dd', n') \<Rightarrow> (Inl e, dd' # dds, n')
      | (Inr v, dd', n') \<Rightarrow>
          (case decode_elements f dds n' of
             (Inl e, dds', n'') \<Rightarrow> (Inl e, dd' # dds', n'')
           | (Inr vs, dds', n'') \<Rightarrow> (Inr (v # vs), dd' # dds', n'')))"

lemma decode_elements_cong [fundef_cong]:
  "dds = dds' \<Longrightarrow> n = n' \<Longrightarrow> (\<And>dd k. dd \<in> set dds' \<Longrightarrow> f dd k = g dd k)
     \<Longrightarrow> decode_elements f dds n = decode_elements g dds' n'"
proof (induction dds arbitrary: dds' n n')
  case Nil
  then show ?case by simp
next
  case (Cons a dds)
  then show ?case by (auto split: prod.splits sum.splits)
qed

text \<open>The element dictionaries are objects inside \<open>d\<close>: what the element decoders did
  to them is visible in \<open>d\<close> afterwards, when they were the items of a list.\<close>

definition write_back :: "pyval \<Rightarrow> pyval \<Rightarrow> pyval list \<Rightarrow> pyval" where
  "write_back d k dds' =
     (case d of
        PDict kvs \<Rightarrow>
          (case map_of kvs k of
             Some (PList dds) \<Rightarrow> PDict (AList.update k (PList dds') kvs)
           | _ \<Rightarrow> d)
      | _ \<Rightarrow> d)"

text \<open>
  The first half of \<^verbatim>\<open>Container.from_dict\<close>: the class to instantiate and the class
  of the elements. With a \<^verbatim>\<open>"_CLS"\<close> key both are resolved from the names in the
  dictionary (an attribute \<^verbatim>\<open>_ELE_CLS_FIELD\<close> exists only on \<^verbatim>\<open>Set\<close> and
  \<^verbatim>\<open>Container\<close> classes); without it, \<^verbatim>\<open>cls()\<close> validates the class.
\<close>

definition Container_from_dict_classes ::
  "world \<Rightarrow> string \<Rightarrow> pyval \<Rightarrow> nat \<Rightarrow> (error + (string \<times> string)) \<times> nat" where
  "Container_from_dict_classes W cls d n =
     (case ELE_CLS_FIELD (class_of W cls) of
        None \<Rightarrow> (Inl ContainerError, n)
      | Some fld \<Rightarrow>
          (case py_in ''_CLS'' d of
             Inl e \<Rightarrow> (Inl e, n)
           | Inr tagged \<Rightarrow>
               if tagged then
                 (case py_in fld d of
                    Inl e \<Rightarrow> (Inl e, n)
                  | Inr has_field \<Rightarrow>
                      if \<not> has_field then (Inl ContainerError, n)
                      else
                        (case py_getitem d (PStr ''_CLS'') of
                           Inl e \<Rightarrow> (Inl e, n)
                         | Inr name \<Rightarrow>
                             (case get_class W name of
                                Inl e \<Rightarrow> (Inl e, n)
                              | Inr cls' \<Rightarrow>
                                  if kind_of W cls' = PlainKind then (Inl AttributeError, n)
                                  else
                                    (case py_getitem d (attr_key (ELE_CLS_FIELD (class_of W cls'))) of
                                       Inl e \<Rightarrow> (Inl e, n)
                                     | Inr ele_name \<Rightarrow>
                                         (case get_class W ele_name of
                                            Inl e \<Rightarrow> (Inl e, n)
                                          | Inr ele_cls \<Rightarrow> (Inr (cls', ele_cls), n))))))
               else
                 (case construct W cls [] n of
                    (Inl e, n') \<Rightarrow> (Inl e, n')
                  | (Inr obj, n') \<Rightarrow>
                      (case ELE_CLS (class_of W cls) of
                         None \<Rightarrow> (Inl AttributeError, n')
                       | Some ele_cls \<Rightarrow> (Inr (cls, ele_cls), n')))))"

text \<open>The same half of \<^verbatim>\<open>Set.from_dict\<close>.\<close>

definition Set_from_dict_classes ::
  "world \<Rightarrow> string \<Rightarrow> pyval \<Rightarrow> nat \<Rightarrow> (error + (string \<times> string)) \<times> nat" where
  "Set_from_dict_classes W cls d n =
     (case ELE_CLS_FIELD (class_of W cls) of
        None \<Rightarrow> (Inl SetError, n)
      | Some fld \<Rightarrow>
          (case py_in ''_CLS'' d of
             Inl e \<Rightarrow> (Inl e, n)
           | Inr tagged \<Rightarrow>
               if tagged then
                 (case py_in fld d of
                    Inl e \<Rightarrow> (Inl e, n)
                  | Inr has_field \<Rightarrow>
                      if \<not> has_field then (Inl SetError, n)
                      else
                        (case py_getitem d (PStr ''_CLS'') of
                           Inl e \<Rightarrow> (Inl e, n)
                         | Inr name \<Rightarrow>
                             (case get_class W name of
                                Inl e \<Rightarrow> (Inl e, n)
                              | Inr cls' \<Rightarrow>
                                  if kind_of W cls' = PlainKind then (Inl AttributeError, n)
                                  else
                                    (case py_getitem d (attr_key (ELE_CLS_FIELD (class_of W cls'))) of
                                       Inl e \<Rightarrow> (Inl e, n)
                                     | Inr ele_name \<Rightarrow>
                                         (case get_class W ele_name of
                                            Inl e \<Rightarrow> (Inl e, n)
                                          | Inr ele_cls \<Rightarrow> (Inr (cls', ele_cls), n))))))
               else
                 (case construct W cls [] n of
                    (Inl e, n') \<Rightarrow> (Inl e, n')
                  | (Inr obj, n') \<Rightarrow>
                      (case ELE_CLS (class_of W cls) of
                         None \<Rightarrow> (Inl AttributeError, n')
                       | Some ele_cls \<Rightarrow> (Inr (cls, ele_cls), n')))))"

text \<open>The values reached by a recursive call are smaller than the dictionary.\<close>

lemma size_getitem: "py_getitem d k = Inr v \<Longrightarrow> size v < size d"
proof (cases d)
  case (PDict kvs)
  assume "py_getitem d k = Inr v"
  with PDict have "map_of kvs k = Some v" by (simp split: option.splits)
  then have "(k, v) \<in> set kvs" by (rule map_of_SomeD)
  then show ?thesis using PDict size_list_estimation' [of "(k, v)" kvs "size v" "size_prod size size"]
    by simp
qed simp_all

lemma size_iter: "py_iter v = Inr dds \<Longrightarrow> dd \<in> set dds \<Longrightarrow> size dd \<le> size v"
proof (cases v)
  case (PList xs)
  assume "py_iter v = Inr dds" "dd \<in> set dds"
  with PList show ?thesis using size_list_estimation' [of dd xs "size dd" size] by auto
next
  case (PDict kvs)
  assume "py_iter v = Inr dds" "dd \<in> set dds"
  with PDict obtain b where "(dd, b) \<in> set kvs" by auto
  then have "size dd \<le> size_list (size_prod size size) kvs"
    using size_list_estimation' [of "(dd, b)" kvs "size dd" "size_prod size size"] by simp
  with PDict show ?thesis by simp
next
  case (PStr s)
  assume "py_iter v = Inr dds" "dd \<in> set dds"
  with PStr show ?thesis by auto
qed simp_all

lemma size_delete_le: "size_list f (AList.delete k kvs) \<le> size_list f kvs"
  by (induction kvs) (auto simp: AList.delete_eq)

lemma size_delete_less:
  "k \<in> set (map fst kvs) \<Longrightarrow> size_list f (AList.delete k kvs) < size_list f kvs"
proof (induction kvs)
  case Nil
  then show ?case by simp
next
  case (Cons kv kvs)
  show ?case
  proof (cases "fst kv = k")
    case True
    then show ?thesis
      using size_delete_le [of f k kvs] by (cases kv) (simp add: AList.delete_eq)
  next
    case False
    with Cons show ?thesis by (cases kv) (auto simp: AList.delete_eq)
  qed
qed

lemma size_pop: "py_pop k d = Inr (v, d') \<Longrightarrow> size d' < size d"
proof (cases d)
  case (PDict kvs)
  assume "py_pop k d = Inr (v, d')"
  with PDict have m: "map_of kvs (PStr k) = Some v" and d': "d' = PDict (AList.delete (PStr k) kvs)"
    by (auto split: option.splits)
  from m have "(PStr k, v) \<in> set kvs" by (rule map_of_SomeD)
  then have "PStr k \<in> set (map fst kvs)" by force
  then show ?thesis using PDict d' size_delete_less [of "PStr k" kvs "size_prod size size"] by simp
qed simp_all

lemma size_element:
  "py_getitem d k = Inr l \<Longrightarrow> py_iter l = Inr dds \<Longrightarrow> dd \<in> set dds \<Longrightarrow> size dd < size d"
  using size_getitem [of d k l] size_iter [of l dds dd] by simp

text \<open>
  \<open>from_dict W cls d n\<close> is the call \<^verbatim>\<open>cls.from_dict(d)\<close> after \<open>n\<close> calls of
  \<^verbatim>\<open>uuid4\<close>: the result or the exception, the dictionary \<open>d\<close> as the call leaves it,
  and the new count. The method is the class's own if it defines one, else
  \<^verbatim>\<open>Set.from_dict\<close> or \<^verbatim>\<open>Container.from_dict\<close> by the kind of the class, else
  \<^verbatim>\<open>Serializable.from_dict\<close>.
\<close>

function from_dict :: "world \<Rightarrow> string \<Rightarrow> pyval \<Rightarrow> nat \<Rightarrow> (error + pyval) \<times> pyval \<times> nat" where
  "from_dict W cls d n =
     (case own_from_dict (class_of W cls) of
        Some f \<Rightarrow> (f d, d, n)
      | None \<Rightarrow>
          (case kind_of W cls of
             PlainKind \<Rightarrow>
               if \<not> issubclass W cls ''Serializable'' then (Inl AttributeError, d, n)
               else
                 (case py_in ''_CLS'' d of
                    Inl e \<Rightarrow> (Inl e, d, n)
                  | Inr tagged \<Rightarrow>
                      if tagged then
                        (case py_pop ''_CLS'' d of
                           Inl e \<Rightarrow> (Inl e, d, n)
                         | Inr (name, d') \<Rightarrow>
                             (case get_class W name of
                                Inl e \<Rightarrow> (Inl e, d', n)
                              | Inr cls' \<Rightarrow> from_dict W cls' d' n))
                      else (Inl (NotImplementedError ''subclass must implement from_dict()''), d, n))
           | ContainerKind \<Rightarrow>
               (case Container_from_dict_classes W cls d n of
                  (Inl e, n') \<Rightarrow> (Inl e, d, n')
                | (Inr (cls', ele_cls), n') \<Rightarrow>
                    (case py_getitem d (attr_key (ELE_ATTR (class_of W cls'))) of
                       Inl e \<Rightarrow> (Inl e, d, n')
                     | Inr l \<Rightarrow>
                         (case py_iter l of
                            Inl e \<Rightarrow> (Inl e, d, n')
                          | Inr dds \<Rightarrow>
                              (case decode_elements (\<lambda>dd k. from_dict W ele_cls dd k) dds n' of
                                 (Inl e, dds', n'') \<Rightarrow>
                                   (Inl e, write_back d (attr_key (ELE_ATTR (class_of W cls'))) dds', n'')
                               | (Inr elements, dds', n'') \<Rightarrow>
                                   (case ELE_ATTR (class_of W cls') of
                                      None \<Rightarrow>
                                        (Inl TypeError,
                                         write_back d (attr_key (ELE_ATTR (class_of W cls'))) dds', n'')
                                    | Some attr \<Rightarrow>
                                        (case construct W cls' [(attr, ListArg elements)] n'' of
                                           (r, n''') \<Rightarrow> (r, write_back d (PStr attr) dds', n''')))))))
           | SetKind \<Rightarrow>
               (case Set_from_dict_classes W cls d n of
                  (Inl e, n') \<Rightarrow> (Inl e, d, n')
                | (Inr (cls', ele_cls), n') \<Rightarrow>
                    (case py_getitem d (attr_key (ELE_ATTR (class_of W cls'))) of
                       Inl e \<Rightarrow> (Inl e, d, n')
                     | Inr l \<Rightarrow>
                         (case py_iter l of
                            Inl e \<Rightarrow> (Inl e, d, n')
                          | Inr dds \<Rightarrow>
                              (case decode_elements (\<lambda>dd k. from_dict W ele_cls dd k) dds n' of
                                 (Inl e, dds', n'') \<Rightarrow>
                                   (Inl e, write_back d (attr_key (ELE_ATTR (class_of W cls'))) dds', n'')
                               | (Inr elements, dds', n'') \<Rightarrow>
                                   (case ELE_ATTR (class_of W cls') of
                                      None \<Rightarrow>
                                        (Inl TypeError,
                                         write_back d (attr_key (ELE_ATTR (class_of W cls'))) dds', n'')
                                    | Some attr \<Rightarrow>
                                        (case construct W cls' [(attr, ListArg elements)] n'' of
                                           (r, n''') \<Rightarrow> (r, write_back d (PStr attr) dds', n''')))))))))"
  by pat_completeness auto
termination
  apply (relation "measure (\<lambda>(W, cls, d, n). size d)")
  apply simp
  apply (auto dest: size_pop size_element)
  done


declare from_dict.simps [simp del]

section \<open>Loading JSON\<close>

text \<open>
  \<^verbatim>\<open>json.loads\<close> is a parameter \<open>loads\<close> (\<open>None\<close> when it raises its
  \<^verbatim>\<open>ValueError\<close>); the file system is a map from the paths of the regular files to
  their contents.
\<close>

definition priv_load_json :: "(string \<Rightarrow> pyval option) \<Rightarrow> string \<Rightarrow> error + pyval" where
  "priv_load_json loads str_or_bytes =
     (case loads str_or_bytes of None \<Rightarrow> Inl JSONDecodeError | Some v \<Rightarrow> Inr v)"

definition isfile :: "(string \<rightharpoonup> string) \<Rightarrow> string \<Rightarrow> bool" where
  "isfile fs path = (fs path \<noteq> None)"

definition read_json :: "(string \<Rightarrow> pyval option) \<Rightarrow> (string \<rightharpoonup> string) \<Rightarrow> string \<Rightarrow> error + pyval" where
  "read_json loads fs path =
     (case fs path of
        None \<Rightarrow> Inl IOError
      | Some content \<Rightarrow>
          (case loads content of
             None \<Rightarrow> Inl (UnableToParseJSONFile path)
           | Some v \<Rightarrow> Inr v))"

text \<open>\<^verbatim>\<open>s.split(sep)\<close> for a separator of one character.\<close>

fun split_on :: "char \<Rightarrow> string \<Rightarrow> string list" where
  "split_on sep [] = [[]]"
| "split_on sep (c # cs) =
     (if c = sep then [] # split_on sep cs
      else (case split_on sep cs of [] \<Rightarrow> [[c]] | w # ws \<Rightarrow> (c # w) # ws))"

text \<open>The loop over the chunks: \<^verbatim>\<open>key, value = chunk.split("=")\<close> and
  \<^verbatim>\<open>d[key] = _load_json(value)\<close>.\<close>

fun load_key_values ::
  "(string \<Rightarrow> pyval option) \<Rightarrow> string list \<Rightarrow> (pyval \<times> pyval) list \<Rightarrow> error + (pyval \<times> pyval) list" where
  "load_key_values loads [] d = Inr d"
| "load_key_values loads (chunk # chunks) d =
     (case split_on CHR ''='' chunk of
        [key, value] \<Rightarrow>
          (case priv_load_json loads value of
             Inl e \<Rightarrow> Inl e
           | Inr v \<Rightarrow> load_key_values loads chunks (AList.update (PStr key) v d))
      | _ \<Rightarrow> Inl UnpackError)"

definition load_json :: "(string \<Rightarrow> pyval option) \<Rightarrow> (string \<rightharpoonup> string) \<Rightarrow> string \<Rightarrow> error + pyval" where
  "load_json loads fs path_or_str =
     (case priv_load_json loads path_or_str of
        Inr v \<Rightarrow> Inr v
      | Inl e \<Rightarrow>
          if \<not> is_ValueError e then Inl e
          else if isfile fs path_or_str then read_json loads fs path_or_str
          else
            (case load_key_values loads (split_on CHR '','' path_or_str) [] of
               Inr d \<Rightarrow> Inr (PDict d)
             | Inl e' \<Rightarrow> if is_ValueError e' then Inl (UnableToLoadJSON path_or_str) else Inl e'))"

text \<open>
  A stand-in for \<^verbatim>\<open>json.loads\<close> on concrete inputs: it parses the documents
  \<^verbatim>\<open>null\<close>, \<^verbatim>\<open>true\<close>, \<^verbatim>\<open>false\<close> and the unsigned decimal integers as
  \<^verbatim>\<open>json.loads\<close> does and rejects every other string. It is used only on these
  documents and on strings that are not JSON.
\<close>

definition digit_value :: "char \<Rightarrow> nat" where
  "digit_value c = of_char c - 48"

definition loads_scalar :: "string \<Rightarrow> pyval option" where
  "loads_scalar s =
     (if s = ''null'' then Some PNone
      else if s = ''true'' then Some (PBool True)
      else if s = ''false'' then Some (PBool False)
      else if s \<noteq> [] \<and> list_all (\<lambda>c. c \<in> set ''0123456789'') s \<and> (hd s \<noteq> CHR ''0'' \<or> s = ''0'')
        then Some (PInt (int (foldl (\<lambda>a c. 10 * a + digit_value c) 0 s)))
      else None)"

section \<open>An example environment\<close>

text \<open>
  A module \<^verbatim>\<open>zoo\<close> with three classes, used to run the definitions on concrete
  inputs: \<^verbatim>\<open>Dog\<close>, a \<^verbatim>\<open>Serializable\<close> with one attribute \<^verbatim>\<open>name\<close> and the
  \<^verbatim>\<open>from_dict\<close> that reads it; \<^verbatim>\<open>Kennel\<close>, a \<^verbatim>\<open>Container\<close> of dogs; and
  \<^verbatim>\<open>AnimalSet\<close>, a \<^verbatim>\<open>Set\<close> of dogs keyed by \<^verbatim>\<open>name\<close>. \<^verbatim>\<open>Stray\<close> is a
  \<^verbatim>\<open>Serializable\<close> that does not define \<^verbatim>\<open>from_dict\<close>. The identifiers drawn from
  \<^verbatim>\<open>uuid4\<close> are stand-ins, pairwise different.
\<close>

definition Dog_from_dict :: "pyval \<Rightarrow> error + pyval" where
  "Dog_from_dict d =
     (case py_getitem d (PStr ''name'') of
        Inl e \<Rightarrow> Inl e
      | Inr v \<Rightarrow> Inr (PObject ''Dog'' [(''name'', v)]))"

definition zoo_classes :: "string \<Rightarrow> pyclass" where
  "zoo_classes c =
     (if c = ''Dog'' then
        \<lparr>cls_module = ''zoo'', cls_name = ''Dog'', bases = [''Serializable''],
         ELE_CLS = None, ELE_KEY_ATTR = None, ELE_CLS_FIELD = None, ELE_ATTR = None,
         own_from_dict = Some Dog_from_dict, own_serialize = None\<rparr>
      else if c = ''Kennel'' then
        \<lparr>cls_module = ''zoo'', cls_name = ''Kennel'', bases = [''Container'', ''Serializable''],
         ELE_CLS = Some ''Dog'', ELE_KEY_ATTR = None, ELE_CLS_FIELD = Some ''_ELEMENT_CLS'',
         ELE_ATTR = Some ''elements'', own_from_dict = None, own_serialize = None\<rparr>
      else if c = ''AnimalSet'' then
        \<lparr>cls_module = ''zoo'', cls_name = ''AnimalSet'', bases = [''Set'', ''Serializable''],
         ELE_CLS = Some ''Dog'', ELE_KEY_ATTR = Some ''name'', ELE_CLS_FIELD = Some ''_ELEMENT_CLS'',
         ELE_ATTR = Some ''elements'', own_from_dict = None, own_serialize = None\<rparr>
      else
        \<lparr>cls_module = ''zoo'', cls_name = ''Stray'', bases = [''Serializable''],
         ELE_CLS = None, ELE_KEY_ATTR = None, ELE_CLS_FIELD = None, ELE_ATTR = None,
         own_from_dict = None, own_serialize = None\<rparr>)"

definition zoo :: world where
  "zoo =
     \<lparr>user_classes = zoo_classes,
      sys_modules =
        [''zoo'' \<mapsto> [''Dog'' \<mapsto> ''Dog'', ''Kennel'' \<mapsto> ''Kennel'',
                    ''AnimalSet'' \<mapsto> ''AnimalSet'', ''Stray'' \<mapsto> ''Stray''],
         ''eta.core.serial'' \<mapsto> [''Serializable'' \<mapsto> ''Serializable'', ''Set'' \<mapsto> ''Set'',
                                ''Container'' \<mapsto> ''Container'']],
      uuid4_str = (\<lambda>n. replicate (Suc n) CHR ''u'')\<rparr>"


definition dog :: "string \<Rightarrow> pyval" where
  "dog name = PObject ''Dog'' [(''name'', PStr name)]"

text \<open>\<^verbatim>\<open>getattr(e, a)\<close> for an attribute that holds an integer or \<^verbatim>\<open>None\<close> on the
  elements of the examples.\<close>

definition int_attr :: "string \<Rightarrow> pyval \<Rightarrow> int option" where
  "int_attr a e = (case py_getattr e a of Inr (PInt i) \<Rightarrow> Some i | _ \<Rightarrow> None)"

definition point :: "pyval \<Rightarrow> pyval" where
  "point x = PObject ''Point'' [(''x'', x)]"

definition named :: "string \<Rightarrow> pyval \<Rightarrow> bool" where
  "named name e = (py_getattr e ''name'' = Inr (PStr name))"

section \<open>Properties\<close>

lemma rsplit_dot_example: "rsplit_dot ''eta.core.serial.Set'' = Some (''eta.core.serial'', ''Set'')"
  by (simp add: rsplit_dot_def)

subsection \<open>Dictionaries and the example environment\<close>

lemma update_fresh: "k \<notin> set (map fst al) \<Longrightarrow> AList.update k v al = al @ [(k, v)]"
  by (induction al) auto

lemma foldl_update_distinct:
  "distinct (map fst (acc @ ps))
     \<Longrightarrow> foldl (\<lambda>d kv. AList.update (fst kv) (snd kv) d) acc ps = acc @ ps"
proof (induction ps arbitrary: acc)
  case Nil
  then show ?case by simp
next
  case (Cons p ps)
  from Cons.prems have fresh: "fst p \<notin> set (map fst acc)" by auto
  have "AList.update (fst p) (snd p) acc = acc @ [p]"
    using update_fresh [OF fresh, of "snd p"] by simp
  moreover from Cons.prems have "distinct (map fst ((acc @ [p]) @ ps))" by simp
  ultimately show ?case using Cons.IH [of "acc @ [p]"] by simp
qed

lemma ordered_dict_distinct: "distinct (map fst ps) \<Longrightarrow> ordered_dict ps = ps"
  using foldl_update_distinct [of "[]" ps] by (simp add: ordered_dict_def)

lemma py_any_map: "py_any (map (\<lambda>f. f x) filters) = (\<exists>f\<in>set filters. f x)"
  by (simp add: py_any_def list_ex_iff)

lemma py_all_map: "py_all (map (\<lambda>f. f x) filters) = (\<forall>f\<in>set filters. f x)"
  by (simp add: py_all_def list_all_iff)

lemma Container_init_list:
  assumes "Container_validate W c = Inr (ele_cls, attr)"
    and "\<forall>e\<in>set es. isinstance W e ele_cls"
  shows "Container_init W c [(attr, ListArg es)] = Inr (PContainer c es)"
  using assms by (simp add: Container_init_def list_ex_iff)

lemma Container_validate_attr:
  "Container_validate W c = Inr (ele_cls, attr) \<Longrightarrow> ELE_ATTR (class_of W c) = Some attr"
  by (auto simp: Container_validate_def split: option.splits if_splits)

lemma zoo_class_simps:
  "class_of zoo ''Dog'' = zoo_classes ''Dog''"
  "class_of zoo ''Kennel'' = zoo_classes ''Kennel''"
  "class_of zoo ''AnimalSet'' = zoo_classes ''AnimalSet''"
  "class_of zoo ''Stray'' = zoo_classes ''Stray''"
  by (simp_all add: class_of_def zoo_def)

lemma zoo_Kennel_valid: "Container_validate zoo ''Kennel'' = Inr (''Dog'', ''elements'')"
  by (simp add: Container_validate_def zoo_class_simps zoo_classes_def issubclass_def)

lemma zoo_dog_instance: "isinstance zoo (dog name) ''Dog''"
  by (simp add: isinstance_def dog_def issubclass_def)

lemma zoo_AnimalSet_valid: "Set_validate zoo ''AnimalSet'' = Inr (''Dog'', ''elements'')"
  by (simp add: Set_validate_def zoo_class_simps zoo_classes_def issubclass_def)

lemma zoo_dog_key:
  "Set_get_key zoo ''AnimalSet'' (PObject ''Dog'' ((''name'', v) # rest)) = Inr v"
  by (simp add: Set_get_key_def zoo_class_simps zoo_classes_def)


subsection \<open>Filtering\<close>

text \<open>
  Claim C8. With the combinator \<^verbatim>\<open>any\<close>, \<^verbatim>\<open>filter_elements\<close> keeps exactly the
  elements that satisfy at least one of the filters, and with \<^verbatim>\<open>all\<close> exactly those
  that satisfy every filter, in their order, for a container and for a set (whose
  dictionary has pairwise different keys, as every dictionary has).
  \<^verbatim>\<open>get_matches\<close> returns a new collection of the same class holding what
  \<^verbatim>\<open>filter_elements\<close> keeps and leaves the elements of the receiver as they were. For a
  container the new collection is built by the constructor, which succeeds when the
  class is valid and the elements are instances of its element class.
\<close>

theorem filter_elements_get_matches:
  assumes "Container_validate W c = Inr (ele_cls, attr)"
    and "\<forall>e\<in>set es. isinstance W e ele_cls"
    and "distinct (map fst kvs)"
  shows "Container_filter_elements filters py_any es = filter (\<lambda>e. \<exists>f\<in>set filters. f e) es
       \<and> Container_filter_elements filters py_all es = filter (\<lambda>e. \<forall>f\<in>set filters. f e) es
       \<and> Set_filter_elements filters py_any kvs = filter (\<lambda>kv. \<exists>f\<in>set filters. f (snd kv)) kvs
       \<and> Set_filter_elements filters py_all kvs = filter (\<lambda>kv. \<forall>f\<in>set filters. f (snd kv)) kvs
       \<and> Container_get_matches W c filters match es
           = (es, Inr (PContainer c (Container_filter_elements filters match es)))
       \<and> Set_get_matches c' filters match kvs
           = (kvs, PSet c' (Set_filter_elements filters match kvs))"
proof -
  have d: "distinct (map fst (filter P kvs))" for P
    using assms(3) by (rule distinct_map_filter)
  have inst: "\<forall>e\<in>set (Container_priv_filter_elements filters match es). isinstance W e ele_cls"
    using assms(2) by (simp add: Container_priv_filter_elements_def)
  have gm: "Container_get_matches W c filters match es
           = (es, Inr (PContainer c (Container_filter_elements filters match es)))"
    using Container_init_list [OF assms(1) inst] Container_validate_attr [OF assms(1)]
    by (simp add: Container_get_matches_def Container_filter_elements_def)
  show ?thesis
    using gm
    by (simp add: Container_filter_elements_def Container_priv_filter_elements_def
        Set_filter_elements_def Set_priv_filter_elements_def Set_get_matches_def
        py_any_map py_all_map ordered_dict_distinct [OF d])
qed


theorem filter_elements_get_matches_witness:
  "Container_filter_elements [named ''rex'', named ''fido''] py_any [dog ''fido'', dog ''tom'']
     = [dog ''fido'']
   \<and> Container_filter_elements [named ''rex'', named ''fido''] py_all [dog ''fido'', dog ''tom''] = []
   \<and> Set_filter_elements [named ''rex'', named ''fido''] py_any
        [(PStr ''fido'', dog ''fido''), (PStr ''tom'', dog ''tom'')] = [(PStr ''fido'', dog ''fido'')]
   \<and> Set_filter_elements [named ''rex'', named ''fido''] py_all
        [(PStr ''fido'', dog ''fido''), (PStr ''tom'', dog ''tom'')] = []
   \<and> Container_get_matches zoo ''Kennel'' [named ''rex'', named ''fido''] py_any
        [dog ''fido'', dog ''tom'']
       = ([dog ''fido'', dog ''tom''], Inr (PContainer ''Kennel'' [dog ''fido'']))
   \<and> Set_get_matches ''AnimalSet'' [named ''rex'', named ''fido''] py_any
        [(PStr ''fido'', dog ''fido''), (PStr ''tom'', dog ''tom'')]
       = ([(PStr ''fido'', dog ''fido''), (PStr ''tom'', dog ''tom'')],
          PSet ''AnimalSet'' [(PStr ''fido'', dog ''fido'')])"
proof -
  have inst: "\<forall>e\<in>set [dog ''fido'', dog ''tom'']. isinstance zoo e ''Dog''"
    by (simp add: zoo_dog_instance)
  have dist: "distinct (map fst [(PStr ''fido'', dog ''fido''), (PStr ''tom'', dog ''tom'')])"
    by simp
  show ?thesis
    using filter_elements_get_matches [OF zoo_Kennel_valid inst dist,
        of "[named ''rex'', named ''fido'']" py_any "''AnimalSet''"]
    by (simp add: named_def dog_def)
qed

subsection \<open>Construction from a one-shot iterator\<close>

text \<open>
  Claim C9. When the initial elements of a \<^verbatim>\<open>Container\<close> or a \<^verbatim>\<open>Set\<close> are given as
  a one-shot iterator whose values all are instances of the element class, the
  type check of the constructor consumes the iterator and \<^verbatim>\<open>add_iterable\<close> then finds
  it exhausted: the construction succeeds and the collection is empty, of size 0. The
  same values given as a list are all stored.
\<close>

theorem generator_gives_empty_collection:
  assumes "Container_validate W c = Inr (ele_cls, attr)"
    and "Set_validate W c' = Inr (ele_cls', attr')"
    and "\<forall>e\<in>set xs. isinstance W e ele_cls \<and> isinstance W e ele_cls'"
  shows "Container_init W c [(attr, GenArg xs)] = Inr (PContainer c [])
       \<and> Container_size [] = 0
       \<and> Set_init W c' [(attr', GenArg xs)] n = (Inr (PSet c' []), n)
       \<and> Set_size [] = 0
       \<and> Container_init W c [(attr, ListArg xs)] = Inr (PContainer c xs)"
  using assms
  by (simp add: Container_init_def Set_init_def Set_add_iterable_def list_ex_iff
      Container_size_def Set_size_def)

theorem generator_gives_empty_collection_witness:
  "Container_init zoo ''Kennel'' [(''elements'', GenArg [dog ''rex'', dog ''fido''])]
     = Inr (PContainer ''Kennel'' [])
   \<and> Set_init zoo ''AnimalSet'' [(''elements'', GenArg [dog ''rex'', dog ''fido''])] 0
     = (Inr (PSet ''AnimalSet'' []), 0)
   \<and> Container_init zoo ''Kennel'' [(''elements'', ListArg [dog ''rex'', dog ''fido''])]
     = Inr (PContainer ''Kennel'' [dog ''rex'', dog ''fido''])"
proof -
  have inst: "\<forall>e\<in>set [dog ''rex'', dog ''fido'']. isinstance zoo e ''Dog'' \<and> isinstance zoo e ''Dog''"
    by (simp add: zoo_dog_instance)
  show ?thesis
    using generator_gives_empty_collection [OF zoo_Kennel_valid zoo_AnimalSet_valid inst, of 0]
    by simp
qed

subsection \<open>Keys of a Set\<close>

lemma Set_add_keyed:
  assumes "Set_get_key W c x = Inr k" and "truthy k" and "hashable k"
  shows "Set_add W c kvs x n = (Inr (AList.update k x kvs), n)"
  using assms by (simp add: Set_add_def)







text \<open>
  Claim C4. For two elements \<open>x\<close> and \<open>y\<close> whose key attribute has the same value \<open>k\<close>,
  non-empty in the sense of the \<^verbatim>\<open>or\<close> of \<^verbatim>\<open>Set.add\<close> (truthy) and usable as a
  dictionary key, adding \<open>x\<close> and then \<open>y\<close> to an empty set raises nothing, draws no
  identifier, and leaves the single entry \<open>k \<mapsto> y\<close>: the size is 1.
\<close>

theorem add_same_key_overwrites:
  assumes "Set_get_key W c x = Inr k" and "Set_get_key W c y = Inr k"
    and "truthy k" and "hashable k"
  shows "Set_add W c [] x n = (Inr [(k, x)], n)
       \<and> Set_add W c [(k, x)] y n = (Inr [(k, y)], n)
       \<and> Set_add_each W c [] [x, y] n = (Inr [(k, y)], n)
       \<and> Set_size [(k, y)] = 1"
  using Set_add_keyed [OF assms(1) assms(3) assms(4)] Set_add_keyed [OF assms(2) assms(3) assms(4)]
  by (simp add: Set_size_def)

theorem add_same_key_overwrites_witness:
  "Set_add_each zoo ''AnimalSet'' []
     [PObject ''Dog'' [(''name'', PStr ''rex''), (''age'', PInt 1)],
      PObject ''Dog'' [(''name'', PStr ''rex''), (''age'', PInt 2)]] 0
   = (Inr [(PStr ''rex'', PObject ''Dog'' [(''name'', PStr ''rex''), (''age'', PInt 2)])], 0)"
  using add_same_key_overwrites
    [where W = zoo and c = "''AnimalSet''" and k = "PStr ''rex'' " and n = 0
       and x = "PObject ''Dog'' [(''name'', PStr ''rex''), (''age'', PInt 1)]"
       and y = "PObject ''Dog'' [(''name'', PStr ''rex''), (''age'', PInt 2)]"]
  by (simp add: zoo_dog_key)




subsection \<open>Sorting\<close>

lemma py_sorted_mset: "mset (py_sorted k r xs) = mset xs"
  by (simp add: py_sorted_def)

lemma py_sorted_stable:
  "filter (\<lambda>y. k y = v) (py_sorted k r xs) = filter (\<lambda>y. k y = v) xs"
proof (cases r)
  case True
  have "filter (\<lambda>y. k y = v) (rev (sort_key k (rev xs)))
          = rev (filter (\<lambda>y. k y = v) (sort_key k (rev xs)))"
    by (simp add: rev_filter)
  also have "\<dots> = rev (filter (\<lambda>y. k y = v) (rev xs))"
    by (simp only: sort_key_stable)
  also have "\<dots> = filter (\<lambda>y. k y = v) xs"
    by (simp add: rev_filter)
  finally show ?thesis using True by (simp add: py_sorted_def)
next
  case False
  then show ?thesis by (simp add: py_sorted_def sort_key_stable)
qed

lemma py_sorted_sorted:
  "sorted (map k (if r then rev (py_sorted k r xs) else py_sorted k r xs))"
  by (simp add: py_sorted_def)

lemma sorted_partition:
  assumes "sorted (map f xs)"
    and "\<And>x y. x \<in> set xs \<Longrightarrow> y \<in> set xs \<Longrightarrow> P x \<Longrightarrow> Q y \<Longrightarrow> f x < f y"
    and "\<And>x. Q x = (\<not> P x)"
  shows "xs = filter P xs @ filter Q xs"
  using assms(1,2)
proof (induction xs)
  case Nil
  then show ?case by simp
next
  case (Cons x xs)
  have IH: "xs = filter P xs @ filter Q xs"
    using Cons by simp
  show ?case
  proof (cases "P x")
    case True
    then have "filter P (x # xs) @ filter Q (x # xs) = x # (filter P xs @ filter Q xs)"
      by (simp add: assms(3))
    with IH [symmetric] show ?thesis by simp
  next
    case False
    have "\<not> P y" if y: "y \<in> set xs" for y
    proof
      assume "P y"
      then have "f y < f x" using Cons.prems(2) [of y x] y False by (simp add: assms(3))
      moreover have "f x \<le> f y" using Cons.prems(1) y by simp
      ultimately show False by simp
    qed
    then have "filter P xs = []" "filter Q xs = xs"
      by (simp_all add: filter_empty_conv filter_id_conv assms(3))
    moreover have "Q x" using False by (simp add: assms(3))
    ultimately show ?thesis using False by simp
  qed
qed

lemma none_last_key_order:
  fixes a :: "'z \<Rightarrow> 'v::linorder option"
  shows "a x \<noteq> None \<Longrightarrow> a y = None \<Longrightarrow> ((a x = None) \<noteq> False, a x) < ((a y = None) \<noteq> False, a y)"
    and "a x = None \<Longrightarrow> a y \<noteq> None \<Longrightarrow> ((a x = None) \<noteq> True, a x) < ((a y = None) \<noteq> True, a y)"
  by auto

lemma none_last_generic:
  fixes a :: "'z \<Rightarrow> 'v::linorder option" and reverse :: bool and zs :: "'z list"
  defines "r \<equiv> py_sorted (\<lambda>z. ((a z = None) \<noteq> reverse, a z)) reverse zs"
  shows "mset r = mset zs"
    and "r = filter (\<lambda>z. a z \<noteq> None) r @ filter (\<lambda>z. a z = None) r"
    and "filter (\<lambda>z. a z = v) r = filter (\<lambda>z. a z = v) zs"
    and "sorted (List.map_filter a (if reverse then rev r else r))"
proof -
  let ?k = "\<lambda>z. ((a z = None) \<noteq> reverse, a z)"
  show "mset r = mset zs" by (simp add: r_def py_sorted_mset)
  have key: "(?k z = ((v = None) \<noteq> reverse, v)) = (a z = v)" for z by auto
  have "filter (\<lambda>z. ?k z = ((v = None) \<noteq> reverse, v)) r
          = filter (\<lambda>z. ?k z = ((v = None) \<noteq> reverse, v)) zs"
    unfolding r_def by (rule py_sorted_stable)
  then show "filter (\<lambda>z. a z = v) r = filter (\<lambda>z. a z = v) zs"
    by (simp only: key)
  let ?s = "if reverse then rev r else r"
  have srt: "sorted (map ?k ?s)"
    unfolding r_def by (rule py_sorted_sorted)
  show "r = filter (\<lambda>z. a z \<noteq> None) r @ filter (\<lambda>z. a z = None) r"
  proof (cases reverse)
    case False
    with srt have "sorted (map (\<lambda>z. ((a z = None) \<noteq> False, a z)) r)" by simp
    then show ?thesis
      by (rule sorted_partition) (rule none_last_key_order(1), simp_all)
  next
    case True
    with srt have "sorted (map (\<lambda>z. ((a z = None) \<noteq> True, a z)) (rev r))" by simp
    then have "rev r = filter (\<lambda>z. a z = None) (rev r) @ filter (\<lambda>z. a z \<noteq> None) (rev r)"
      by (rule sorted_partition) (rule none_last_key_order(2), simp_all)
    then have "rev (rev r) = rev (filter (\<lambda>z. a z = None) (rev r) @ filter (\<lambda>z. a z \<noteq> None) (rev r))"
      by (rule arg_cong)
    also have "\<dots> = filter (\<lambda>z. a z \<noteq> None) r @ filter (\<lambda>z. a z = None) r"
      by (simp add: rev_filter)
    finally show ?thesis by (simp only: rev_rev_ident)
  qed
  have "sorted (map ?k (filter (\<lambda>z. a z \<noteq> None) ?s))"
    using srt by (rule sorted_filter)
  then have "sorted_wrt (\<lambda>x y. ?k x \<le> ?k y) (filter (\<lambda>z. a z \<noteq> None) ?s)"
    by (simp only: sorted_map)
  then have "sorted_wrt (\<lambda>x y. the (a x) \<le> the (a y)) (filter (\<lambda>z. a z \<noteq> None) ?s)"
  proof (rule sorted_wrt_mono_rel [rotated])
    fix x y
    assume "x \<in> set (filter (\<lambda>z. a z \<noteq> None) ?s)" "y \<in> set (filter (\<lambda>z. a z \<noteq> None) ?s)"
      and le: "?k x \<le> ?k y"
    then obtain u w where "a x = Some u" "a y = Some w" by auto
    with le show "the (a x) \<le> the (a y)" by auto
  qed
  then show "sorted (List.map_filter a ?s)"
    by (simp add: List.map_filter_def sorted_map o_def)
qed


lemma Set_sort_by_distinct:
  fixes attr :: "pyval \<Rightarrow> 'v::linorder option"
  assumes "distinct (map fst kvs)"
  shows "Set_sort_by attr reverse kvs
    = py_sorted (\<lambda>z. ((attr (snd z) = None) \<noteq> reverse, attr (snd z))) reverse kvs"
proof -
  let ?p = "py_sorted (\<lambda>z. ((attr (snd z) = None) \<noteq> reverse, attr (snd z))) reverse kvs"
  have "mset ?p = mset kvs" by (rule py_sorted_mset)
  then have "mset (map fst ?p) = mset (map fst kvs)" by simp
  then have "distinct (map fst ?p) = distinct (map fst kvs)" by (rule mset_eq_imp_distinct_iff)
  then have "distinct (map fst ?p)" using assms by simp
  then have "ordered_dict ?p = ?p" by (rule ordered_dict_distinct)
  then show ?thesis
    by (simp add: Set_sort_by_def Set_field_none_last_def [abs_def])
qed

lemma Container_sort_by_unfold:
  fixes attr :: "pyval \<Rightarrow> 'v::linorder option"
  shows "Container_sort_by attr reverse es
             = py_sorted (\<lambda>z. ((attr z = None) \<noteq> reverse, attr z)) reverse es"
    by (simp add: Container_sort_by_def field_none_last_def [abs_def])


lemma int_attr_point:
  "int_attr ''x'' (point (PInt i)) = Some i" "int_attr ''x'' (point PNone) = None"
  by (simp_all add: int_attr_def point_def)

text \<open>
  Claim C6. \<^verbatim>\<open>sort_by\<close> on a container and on a set (a dictionary with pairwise
  different keys) permutes the elements, puts every element whose attribute is
  \<^verbatim>\<open>None\<close> after all the others, keeps the original order among elements with the
  same attribute value (in particular among the \<^verbatim>\<open>None\<close> ones), and orders the
  other values ascending, or descending when \<^verbatim>\<open>reverse\<close> is set. The example of the
  claim is evaluated in the witness.
\<close>

theorem sort_by_none_last:
  fixes attr :: "pyval \<Rightarrow> 'v::linorder option"
  assumes "distinct (map fst kvs)"
  shows "mset (Container_sort_by attr reverse es) = mset es
       \<and> Container_sort_by attr reverse es
           = filter (\<lambda>e. attr e \<noteq> None) (Container_sort_by attr reverse es)
             @ filter (\<lambda>e. attr e = None) (Container_sort_by attr reverse es)
       \<and> (\<forall>v. filter (\<lambda>e. attr e = v) (Container_sort_by attr reverse es)
                = filter (\<lambda>e. attr e = v) es)
       \<and> sorted (List.map_filter attr
            (if reverse then rev (Container_sort_by attr reverse es)
             else Container_sort_by attr reverse es))
       \<and> mset (Set_sort_by attr reverse kvs) = mset kvs
       \<and> Set_sort_by attr reverse kvs
           = filter (\<lambda>kv. attr (snd kv) \<noteq> None) (Set_sort_by attr reverse kvs)
             @ filter (\<lambda>kv. attr (snd kv) = None) (Set_sort_by attr reverse kvs)
       \<and> (\<forall>v. filter (\<lambda>kv. attr (snd kv) = v) (Set_sort_by attr reverse kvs)
                = filter (\<lambda>kv. attr (snd kv) = v) kvs)
       \<and> sorted (List.map_filter (\<lambda>kv. attr (snd kv))
            (if reverse then rev (Set_sort_by attr reverse kvs)
             else Set_sort_by attr reverse kvs))"
proof -
  note c = Container_sort_by_unfold [of attr reverse es]
  note s = Set_sort_by_distinct [OF assms, of attr reverse]
  note g1 = none_last_generic [where a = attr and reverse = reverse and zs = es, folded c]
  note g2 = none_last_generic [where a = "\<lambda>kv. attr (snd kv)" and reverse = reverse and zs = kvs, folded s]
  have c3: "\<forall>v. filter (\<lambda>e. attr e = v) (Container_sort_by attr reverse es)
                = filter (\<lambda>e. attr e = v) es"
    by (rule allI) (rule g1(3))
  have s3: "\<forall>v. filter (\<lambda>kv. attr (snd kv) = v) (Set_sort_by attr reverse kvs)
                = filter (\<lambda>kv. attr (snd kv) = v) kvs"
    by (rule allI) (rule g2(3))
  from g1(1) g1(2) c3 g1(4) g2(1) g2(2) s3 g2(4) show ?thesis
    by (intro conjI)
qed


theorem sort_by_none_last_witness:
  "Container_sort_by (int_attr ''x'') False [point (PInt 3), point PNone, point (PInt 1)]
     = [point (PInt 1), point (PInt 3), point PNone]
   \<and> Container_sort_by (int_attr ''x'') True [point (PInt 3), point PNone, point (PInt 1)]
     = [point (PInt 3), point (PInt 1), point PNone]
   \<and> Set_sort_by (int_attr ''x'') False
        [(PStr ''a'', point (PInt 3)), (PStr ''b'', point PNone), (PStr ''c'', point (PInt 1))]
     = [(PStr ''c'', point (PInt 1)), (PStr ''a'', point (PInt 3)), (PStr ''b'', point PNone)]
   \<and> Set_sort_by (int_attr ''x'') True
        [(PStr ''a'', point (PInt 3)), (PStr ''b'', point PNone), (PStr ''c'', point (PInt 1))]
     = [(PStr ''a'', point (PInt 3)), (PStr ''c'', point (PInt 1)), (PStr ''b'', point PNone)]"
proof -
  let ?kvs = "[(PStr ''a'', point (PInt 3)), (PStr ''b'', point PNone), (PStr ''c'', point (PInt 1))]"
  have d: "distinct (map fst ?kvs)" by simp
  have c: "Container_sort_by (int_attr ''x'') False [point (PInt 3), point PNone, point (PInt 1)]
     = [point (PInt 1), point (PInt 3), point PNone]"
    "Container_sort_by (int_attr ''x'') True [point (PInt 3), point PNone, point (PInt 1)]
     = [point (PInt 3), point (PInt 1), point PNone]"
    by (simp_all add: Container_sort_by_def py_sorted_def field_none_last_def int_attr_point)
  have s: "Set_sort_by (int_attr ''x'') False ?kvs
     = [(PStr ''c'', point (PInt 1)), (PStr ''a'', point (PInt 3)), (PStr ''b'', point PNone)]"
    "Set_sort_by (int_attr ''x'') True ?kvs
     = [(PStr ''a'', point (PInt 3)), (PStr ''c'', point (PInt 1)), (PStr ''b'', point PNone)]"
    by (simp_all add: Set_sort_by_def py_sorted_def Set_field_none_last_def int_attr_point
        ordered_dict_def)
  from sort_by_none_last [OF d, of "int_attr ''x''" False "[point (PInt 3), point PNone, point (PInt 1)]"]
  have "mset (Container_sort_by (int_attr ''x'') False [point (PInt 3), point PNone, point (PInt 1)])
          = mset [point (PInt 3), point PNone, point (PInt 1)]"
    by (rule conjunct1)
  with c s show ?thesis by (intro conjI)
qed

subsection \<open>Loading JSON\<close>

lemma load_key_values_error: "load_key_values loads chunks d = Inl e \<Longrightarrow> is_ValueError e"
proof (induction chunks arbitrary: d)
  case Nil
  then show ?case by simp
next
  case (Cons chunk chunks)
  then show ?case
    by (auto simp: priv_load_json_def split: list.splits option.splits)
qed

lemma load_key_values_succeeds:
  "(\<exists>d'. load_key_values loads chunks d = Inr d')
     = (\<forall>chunk\<in>set chunks. \<exists>key value. split_on CHR ''='' chunk = [key, value] \<and> loads value \<noteq> None)"
proof (induction chunks arbitrary: d)
  case Nil
  then show ?case by simp
next
  case (Cons chunk chunks)
  show ?case
  proof (cases "\<exists>key value. split_on CHR ''='' chunk = [key, value] \<and> loads value \<noteq> None")
    case True
    then obtain k val w where "split_on CHR ''='' chunk = [k, val]" "loads val = Some w"
      by auto
    then show ?thesis using Cons.IH [of "AList.update (PStr k) w d"] True
      by (simp add: priv_load_json_def)
  next
    case False
    then have "\<exists>e. load_key_values loads (chunk # chunks) d = Inl e"
      by (auto simp: priv_load_json_def split: list.splits option.splits)
    with False show ?thesis by auto
  qed
qed

text \<open>
  Claim C3, as the code has it. \<^verbatim>\<open>load_json\<close> tries the literal JSON string first:
  when the string parses, its value is returned. Otherwise, when the string is the path
  of an existing file, the outcome is that of reading the file, its document or the
  \<^verbatim>\<open>ValueError\<close> of \<^verbatim>\<open>read_json\<close>, and the shorthand is not tried. Otherwise the
  string is read as a comma-separated list of \<^verbatim>\<open>key=value\<close> chunks. The aggregated
  \<^verbatim>\<open>ValueError\<close> is raised exactly when the string does not parse, names no file and
  has a chunk that is not \<^verbatim>\<open>key=value\<close> with a parsable value.
\<close>

theorem load_json_order:
  "(loads s = Some v \<longrightarrow> load_json loads fs s = Inr v)
   \<and> (loads s = None \<and> isfile fs s \<longrightarrow> load_json loads fs s = read_json loads fs s)
   \<and> (loads s = None \<and> \<not> isfile fs s \<longrightarrow>
        load_json loads fs s
          = (case load_key_values loads (split_on CHR '','' s) [] of
               Inr d \<Rightarrow> Inr (PDict d)
             | Inl e \<Rightarrow> Inl (UnableToLoadJSON s)))
   \<and> (load_json loads fs s = Inl (UnableToLoadJSON s)
        \<longleftrightarrow> loads s = None \<and> \<not> isfile fs s
            \<and> \<not> (\<forall>chunk\<in>set (split_on CHR '','' s).
                    \<exists>key value. split_on CHR ''='' chunk = [key, value] \<and> loads value \<noteq> None))"
proof -
  let ?kv = "load_key_values loads (split_on CHR '','' s) []"
  have a: "loads s = Some v \<longrightarrow> load_json loads fs s = Inr v"
    by (simp add: load_json_def priv_load_json_def)
  have b: "loads s = None \<and> isfile fs s \<longrightarrow> load_json loads fs s = read_json loads fs s"
    by (simp add: load_json_def priv_load_json_def)
  have c: "loads s = None \<and> \<not> isfile fs s \<longrightarrow>
        load_json loads fs s
          = (case ?kv of Inr d \<Rightarrow> Inr (PDict d) | Inl e \<Rightarrow> Inl (UnableToLoadJSON s))"
    using load_key_values_error [of loads "split_on CHR '','' s" "[]"]
    by (auto simp: load_json_def priv_load_json_def split: sum.splits)
  have rd: "read_json loads fs s \<noteq> Inl (UnableToLoadJSON s)"
    by (simp add: read_json_def split: option.splits)
  have ok: "(\<exists>d'. ?kv = Inr d')
     = (\<forall>chunk\<in>set (split_on CHR '','' s).
          \<exists>key value. split_on CHR ''='' chunk = [key, value] \<and> loads value \<noteq> None)"
    by (rule load_key_values_succeeds)
  have d: "load_json loads fs s = Inl (UnableToLoadJSON s)
        \<longleftrightarrow> loads s = None \<and> \<not> isfile fs s \<and> \<not> (\<exists>d'. ?kv = Inr d')"
  proof (cases "loads s")
    case None
    show ?thesis
    proof (cases "isfile fs s")
      case True
      with None b rd show ?thesis by simp
    next
      case False
      with None c show ?thesis by (cases ?kv) simp_all
    qed
  next
    case (Some w)
    then show ?thesis by (simp add: load_json_def priv_load_json_def)
  qed
  from a b c d [unfolded ok] show ?thesis by (intro conjI)
qed

theorem load_json_order_witness:
  "loads_scalar ''a=1,b=true'' = None
   \<and> \<not> isfile Map.empty ''a=1,b=true''
   \<and> load_json loads_scalar Map.empty ''a=1,b=true''
       = Inr (PDict [(PStr ''a'', PInt 1), (PStr ''b'', PBool True)])
   \<and> load_json loads_scalar [''cfg'' \<mapsto> ''12''] ''cfg'' = Inr (PInt 12)
   \<and> load_json loads_scalar Map.empty ''7'' = Inr (PInt 7)"
proof -
  have n: "loads_scalar ''a=1,b=true'' = None" "loads_scalar ''cfg'' = None"
    by (simp_all add: loads_scalar_def)
  have f: "\<not> isfile Map.empty ''a=1,b=true''" "isfile [''cfg'' \<mapsto> ''12''] ''cfg''"
    by (simp_all add: isfile_def)
  have kv: "load_key_values loads_scalar (split_on CHR '','' ''a=1,b=true'') []
              = Inr [(PStr ''a'', PInt 1), (PStr ''b'', PBool True)]"
    by (simp add: loads_scalar_def priv_load_json_def digit_value_def)
  have r: "read_json loads_scalar [''cfg'' \<mapsto> ''12''] ''cfg'' = Inr (PInt 12)"
    by (simp add: read_json_def loads_scalar_def digit_value_def)
  have s7: "loads_scalar ''7'' = Some (PInt 7)"
    by (simp add: loads_scalar_def digit_value_def)
  show ?thesis
    using load_json_order [of loads_scalar "''a=1,b=true''" _ Map.empty]
      load_json_order [of loads_scalar "''cfg''" _ "[''cfg'' \<mapsto> ''12'']"]
      load_json_order [of loads_scalar "''7''" "PInt 7" Map.empty]
      n f kv r s7
    by simp
qed

text \<open>
  The order stated in claim C3, file first, is not the order of the code: for a file
  named \<^verbatim>\<open>1\<close> that holds the document \<^verbatim>\<open>2\<close>, \<^verbatim>\<open>load_json("1")\<close> returns 1, the
  literal, and not the document of the file. And an error is raised although the
  shorthand would succeed: \<^verbatim>\<open>a=1\<close> names a file that is not JSON.
\<close>

theorem load_json_file_first_counterexample:
  "isfile [''1'' \<mapsto> ''2'', ''a=1'' \<mapsto> ''oops''] ''1''
   \<and> read_json loads_scalar [''1'' \<mapsto> ''2'', ''a=1'' \<mapsto> ''oops''] ''1'' = Inr (PInt 2)
   \<and> load_json loads_scalar [''1'' \<mapsto> ''2'', ''a=1'' \<mapsto> ''oops''] ''1'' = Inr (PInt 1)
   \<and> load_key_values loads_scalar (split_on CHR '','' ''a=1'') [] = Inr [(PStr ''a'', PInt 1)]
   \<and> load_json loads_scalar [''1'' \<mapsto> ''2'', ''a=1'' \<mapsto> ''oops''] ''a=1''
       = Inl (UnableToParseJSONFile ''a=1'')"
  by (simp add: load_json_def read_json_def isfile_def priv_load_json_def loads_scalar_def
      digit_value_def)

subsection \<open>Decoding through \<^verbatim>\<open>Serializable.from_dict\<close>\<close>

lemma Serializable_entry:
  "own_from_dict (class_of W ''Serializable'') = None"
  "kind_of W ''Serializable'' = PlainKind"
  "issubclass W ''Serializable'' ''Serializable''"
  by (simp_all add: class_of_def Serializable_class_def kind_of_def issubclass_def)

lemma Container_entry:
  "own_from_dict (class_of W ''Container'') = None"
  "kind_of W ''Container'' = ContainerKind"
  "ELE_CLS_FIELD (class_of W ''Container'') = Some ''_ELEMENT_CLS''"
  by (simp_all add: class_of_def Container_class_def kind_of_def)

lemma Set_entry:
  "own_from_dict (class_of W ''Set'') = None"
  "kind_of W ''Set'' = SetKind"
  "ELE_CLS_FIELD (class_of W ''Set'') = Some ''_ELEMENT_CLS''"
  by (simp_all add: class_of_def Set_class_def kind_of_def)

lemma from_dict_inherited:
  assumes "own_from_dict (class_of W cls) = None" and "kind_of W cls = PlainKind"
    and "issubclass W cls ''Serializable''"
  shows "from_dict W cls (PDict kvs) n =
     (if PStr ''_CLS'' \<in> set (map fst kvs) then
        (case map_of kvs (PStr ''_CLS'') of
           None \<Rightarrow> (Inl KeyError, PDict kvs, n)
         | Some name \<Rightarrow>
             (case get_class W name of
                Inl e \<Rightarrow> (Inl e, PDict (AList.delete (PStr ''_CLS'') kvs), n)
              | Inr cls' \<Rightarrow> from_dict W cls' (PDict (AList.delete (PStr ''_CLS'') kvs)) n))
      else (Inl (NotImplementedError ''subclass must implement from_dict()''), PDict kvs, n))"
  using assms by (subst from_dict.simps) (simp split: option.splits)

lemma tag_lookup:
  "PStr ''_CLS'' \<in> set (map fst kvs) \<Longrightarrow> \<exists>name. map_of kvs (PStr ''_CLS'') = Some name"
  by (metis map_of_eq_None_iff not_Some_eq set_map)

lemma deleted_key_absent: "k \<notin> set (map fst (AList.delete k kvs))"
  using delete_notin_dom [of k kvs] by simp

lemma zoo_get_class:
  "get_class zoo (PStr ''zoo.Dog'') = Inr ''Dog''"
  "get_class zoo (PStr ''zoo.Kennel'') = Inr ''Kennel''"
  "get_class zoo (PStr ''zoo.AnimalSet'') = Inr ''AnimalSet''"
  "get_class zoo (PStr ''zoo.Stray'') = Inr ''Stray''"
  by (simp_all add: get_class_def rsplit_dot_def zoo_def)

lemma zoo_Stray:
  "own_from_dict (class_of zoo ''Stray'') = None"
  "kind_of zoo ''Stray'' = PlainKind"
  "issubclass zoo ''Stray'' ''Serializable''"
  by (simp_all add: zoo_class_simps zoo_classes_def kind_of_def issubclass_def)

lemma zoo_Dog_from_dict: "from_dict zoo ''Dog'' d n = (Dog_from_dict d, d, n)"
  by (subst from_dict.simps) (simp add: zoo_class_simps zoo_classes_def)

text \<open>
  Claim C7. For a dictionary with the key \<^verbatim>\<open>"_CLS"\<close> whose value resolves to a class,
  \<^verbatim>\<open>Serializable.from_dict\<close> is the \<^verbatim>\<open>from_dict\<close> of that class on the dictionary
  without the key; when that class inherits \<^verbatim>\<open>Serializable.from_dict\<close>, this second
  call raises \<^verbatim>\<open>NotImplementedError\<close> and the recursion ends. Without the key the call
  raises \<^verbatim>\<open>NotImplementedError("subclass must implement from_dict()")\<close>. That the call
  returns in every case is the totality of \<open>from_dict\<close>.
\<close>

theorem Serializable_from_dict_delegates:
  "(map_of kvs (PStr ''_CLS'') = Some name \<and> get_class W name = Inr c \<longrightarrow>
      from_dict W ''Serializable'' (PDict kvs) n
        = from_dict W c (PDict (AList.delete (PStr ''_CLS'') kvs)) n)
   \<and> (map_of kvs (PStr ''_CLS'') = Some name \<and> get_class W name = Inr c
        \<and> own_from_dict (class_of W c) = None \<and> kind_of W c = PlainKind
        \<and> issubclass W c ''Serializable'' \<longrightarrow>
      from_dict W ''Serializable'' (PDict kvs) n
        = (Inl (NotImplementedError ''subclass must implement from_dict()''),
           PDict (AList.delete (PStr ''_CLS'') kvs), n))
   \<and> (PStr ''_CLS'' \<notin> set (map fst kvs) \<longrightarrow>
      from_dict W ''Serializable'' (PDict kvs) n
        = (Inl (NotImplementedError ''subclass must implement from_dict()''), PDict kvs, n))"
proof -
  note entry = from_dict_inherited [OF Serializable_entry, of W kvs n]
  have tagged: "PStr ''_CLS'' \<in> set (map fst kvs)" if "map_of kvs (PStr ''_CLS'') = Some name"
    using that by (metis map_of_SomeD fst_conv image_eqI set_map)
  have a: "from_dict W ''Serializable'' (PDict kvs) n
        = from_dict W c (PDict (AList.delete (PStr ''_CLS'') kvs)) n"
    if "map_of kvs (PStr ''_CLS'') = Some name" "get_class W name = Inr c"
    using that tagged entry by simp
  have b: "from_dict W c (PDict (AList.delete (PStr ''_CLS'') kvs)) n
        = (Inl (NotImplementedError ''subclass must implement from_dict()''),
           PDict (AList.delete (PStr ''_CLS'') kvs), n)"
    if "own_from_dict (class_of W c) = None" "kind_of W c = PlainKind"
      "issubclass W c ''Serializable''"
    using from_dict_inherited [OF that, of "AList.delete (PStr ''_CLS'') kvs" n]
      deleted_key_absent [of "PStr ''_CLS''" kvs]
    by simp
  have c: "from_dict W ''Serializable'' (PDict kvs) n
        = (Inl (NotImplementedError ''subclass must implement from_dict()''), PDict kvs, n)"
    if "PStr ''_CLS'' \<notin> set (map fst kvs)"
    using that entry by simp
  from a b c show ?thesis by simp
qed


theorem Serializable_from_dict_delegates_witness:
  "from_dict zoo ''Serializable''
      (PDict [(PStr ''_CLS'', PStr ''zoo.Dog''), (PStr ''name'', PStr ''rex'')]) 0
     = (Inr (dog ''rex''), PDict [(PStr ''name'', PStr ''rex'')], 0)
   \<and> from_dict zoo ''Serializable''
      (PDict [(PStr ''_CLS'', PStr ''zoo.Stray''), (PStr ''name'', PStr ''rex'')]) 0
     = (Inl (NotImplementedError ''subclass must implement from_dict()''),
        PDict [(PStr ''name'', PStr ''rex'')], 0)
   \<and> from_dict zoo ''Serializable'' (PDict [(PStr ''name'', PStr ''rex'')]) 0
     = (Inl (NotImplementedError ''subclass must implement from_dict()''),
        PDict [(PStr ''name'', PStr ''rex'')], 0)"
proof -
  let ?rest = "[(PStr ''name'', PStr ''rex'')]"
  note t1 = Serializable_from_dict_delegates [of "(PStr ''_CLS'', PStr ''zoo.Dog'') # ?rest"
      "PStr ''zoo.Dog''" zoo "''Dog''" 0]
  note t2 = Serializable_from_dict_delegates [of "(PStr ''_CLS'', PStr ''zoo.Stray'') # ?rest"
      "PStr ''zoo.Stray''" zoo "''Stray''" 0]
  note t3 = Serializable_from_dict_delegates [of ?rest PNone zoo "''Dog''" 0]
  have "from_dict zoo ''Serializable'' (PDict ((PStr ''_CLS'', PStr ''zoo.Dog'') # ?rest)) 0
          = from_dict zoo ''Dog'' (PDict ?rest) 0"
    using t1 [THEN conjunct1] by (simp add: zoo_get_class)
  then have a: "from_dict zoo ''Serializable'' (PDict ((PStr ''_CLS'', PStr ''zoo.Dog'') # ?rest)) 0
          = (Inr (dog ''rex''), PDict ?rest, 0)"
    by (simp add: zoo_Dog_from_dict Dog_from_dict_def dog_def)
  have b: "from_dict zoo ''Serializable'' (PDict ((PStr ''_CLS'', PStr ''zoo.Stray'') # ?rest)) 0
          = (Inl (NotImplementedError ''subclass must implement from_dict()''), PDict ?rest, 0)"
    using t2 [THEN conjunct2, THEN conjunct1] by (simp add: zoo_get_class zoo_Stray)
  have c: "from_dict zoo ''Serializable'' (PDict ?rest) 0
          = (Inl (NotImplementedError ''subclass must implement from_dict()''), PDict ?rest, 0)"
    using t3 [THEN conjunct2, THEN conjunct2] by simp
  from a b c show ?thesis by (intro conjI)
qed

lemma map_of_Some_key: "map_of kvs k = Some v \<Longrightarrow> k \<in> set (map fst kvs)"
  by (metis map_of_eq_None_iff option.distinct(1) set_map)

lemma write_back_keys: "dict_keys (write_back d k dds') = dict_keys d"
  by (cases d) (auto simp: write_back_def update_keys dest: map_of_Some_key
      split: option.splits pyval.splits)

lemma write_back_is_dict: "is_dict (write_back d k dds') = is_dict d"
  by (cases d) (auto simp: write_back_def split: option.splits pyval.splits)

lemma from_dict_keys:
  "dict_keys (fst (snd (from_dict W cls d n))) \<subseteq> dict_keys d
     \<and> is_dict (fst (snd (from_dict W cls d n))) = is_dict d"
proof (induction "size d" arbitrary: cls d n rule: less_induct)
  case less
  show ?case
  proof (cases "own_from_dict (class_of W cls)")
    case (Some f)
    then show ?thesis by (simp add: from_dict.simps [of W cls d n])
  next
    case None
    show ?thesis
    proof (cases "kind_of W cls")
      case SetKind
      with None show ?thesis
        by (simp add: from_dict.simps [of W cls d n] write_back_keys write_back_is_dict
            split: prod.splits sum.splits option.splits)
    next
      case ContainerKind
      with None show ?thesis
        by (simp add: from_dict.simps [of W cls d n] write_back_keys write_back_is_dict
            split: prod.splits sum.splits option.splits)
    next
      case PlainKind
      show ?thesis
      proof (cases "issubclass W cls ''Serializable''")
        case False
        with None PlainKind show ?thesis by (simp add: from_dict.simps [of W cls d n])
      next
        case True
        show ?thesis
        proof (cases d)
          case (PDict kvs)
          let ?d' = "PDict (AList.delete (PStr ''_CLS'') kvs)"
          have smaller: "size ?d' < size d" if "PStr ''_CLS'' \<in> set (map fst kvs)"
            using that PDict size_delete_less [of "PStr ''_CLS''" kvs "size_prod size size"]
            by simp
          have sub: "dict_keys ?d' \<subseteq> dict_keys d"
            using PDict by (auto simp: AList.delete_eq)
          have rec: "dict_keys (fst (snd (from_dict W c ?d' n))) \<subseteq> dict_keys d
                     \<and> is_dict (fst (snd (from_dict W c ?d' n)))"
            if "PStr ''_CLS'' \<in> set (map fst kvs)" for c
            using less [OF smaller [OF that], of c n] sub by auto
          show ?thesis
            unfolding PDict from_dict_inherited [OF None PlainKind True]
            using rec sub PDict
            by (auto split: option.splits sum.splits)
        next
          case (PList xs)
          then show ?thesis
            unfolding from_dict.simps [of W cls d n]
            using None PlainKind True by (simp split: sum.splits)
        next
          case (PStr s)
          then show ?thesis
            unfolding from_dict.simps [of W cls d n]
            using None PlainKind True by (simp split: sum.splits)
        qed (unfold from_dict.simps [of W cls d n], use None PlainKind True in simp_all)
      qed
    qed
  qed
qed


text \<open>
  Claim C10. After \<^verbatim>\<open>Serializable.from_dict(d)\<close> on a dictionary \<open>d\<close> with the key
  \<^verbatim>\<open>"_CLS"\<close>, whether the call returns or raises, \<^verbatim>\<open>"_CLS" in d\<close> is false: the
  dictionary of the caller has lost the key. (A \<^verbatim>\<open>from_dict\<close> defined outside the
  repository is taken not to mutate its argument.)
\<close>

theorem from_dict_removes_tag:
  assumes "PStr ''_CLS'' \<in> set (map fst kvs)"
  shows "py_in ''_CLS'' (fst (snd (from_dict W ''Serializable'' (PDict kvs) n))) = Inr False"
proof -
  let ?d1 = "PDict (AList.delete (PStr ''_CLS'') kvs)"
  let ?after = "fst (snd (from_dict W ''Serializable'' (PDict kvs) n))"
  from assms obtain name where name: "map_of kvs (PStr ''_CLS'') = Some name"
    using tag_lookup by blast
  have popped: "PStr ''_CLS'' \<notin> dict_keys ?d1"
    using deleted_key_absent [of "PStr ''_CLS''" kvs] by simp
  have "dict_keys ?after \<subseteq> dict_keys ?d1 \<and> is_dict ?after"
  proof (cases "get_class W name")
    case (Inl e)
    with assms name show ?thesis
      by (simp add: from_dict_inherited [OF Serializable_entry])
  next
    case (Inr c)
    with assms name have "from_dict W ''Serializable'' (PDict kvs) n = from_dict W c ?d1 n"
      by (simp add: from_dict_inherited [OF Serializable_entry])
    then show ?thesis using from_dict_keys [of W c ?d1 n] by simp
  qed
  with popped have "PStr ''_CLS'' \<notin> dict_keys ?after" "is_dict ?after" by auto
  then show ?thesis by (cases ?after) simp_all
qed

theorem from_dict_removes_tag_witness:
  "py_in ''_CLS'' (fst (snd (from_dict zoo ''Serializable''
      (PDict [(PStr ''_CLS'', PStr ''zoo.Stray''), (PStr ''name'', PStr ''rex'')]) 0))) = Inr False
   \<and> fst (snd (from_dict zoo ''Serializable''
      (PDict [(PStr ''_CLS'', PStr ''zoo.Stray''), (PStr ''name'', PStr ''rex'')]) 0))
      = PDict [(PStr ''name'', PStr ''rex'')]"
proof -
  have tagged: "PStr ''_CLS'' \<in> set (map fst [(PStr ''_CLS'', PStr ''zoo.Stray''), (PStr ''name'', PStr ''rex'')])"
    by simp
  have "from_dict zoo ''Serializable''
      (PDict [(PStr ''_CLS'', PStr ''zoo.Stray''), (PStr ''name'', PStr ''rex'')]) 0
      = (Inl (NotImplementedError ''subclass must implement from_dict()''),
         PDict [(PStr ''name'', PStr ''rex'')], 0)"
    by (simp add: from_dict_inherited [OF Serializable_entry] from_dict_inherited [OF zoo_Stray]
        zoo_get_class)
  then show ?thesis using from_dict_removes_tag [OF tagged, of zoo 0] by simp
qed

subsection \<open>Decoding through \<^verbatim>\<open>Container.from_dict\<close> and \<^verbatim>\<open>Set.from_dict\<close>\<close>

lemma construct_type: "construct W c kwargs n = (Inr obj, n') \<Longrightarrow> type_of obj = Some c"
  by (auto simp: construct_def Container_init_def Set_init_def Let_def
      split: kind.splits sum.splits prod.splits if_splits)

lemma classes_agree:
  assumes "PStr ''_CLS'' \<in> set (map fst kvs)" and "PStr ''_ELEMENT_CLS'' \<in> set (map fst kvs)"
  shows "Container_from_dict_classes W ''Container'' (PDict kvs) n
           = Set_from_dict_classes W ''Set'' (PDict kvs) n"
  using assms
  by (simp add: Container_from_dict_classes_def Set_from_dict_classes_def Container_entry Set_entry)

lemma Container_classes_tagged:
  assumes "map_of kvs (PStr ''_CLS'') = Some name"
  shows "Container_from_dict_classes W ''Container'' (PDict kvs) n = (Inr (cls', ele_cls), n')
           \<Longrightarrow> get_class W name = Inr cls'"
    and "get_class W name = Inl e
           \<Longrightarrow> \<exists>e'. Container_from_dict_classes W ''Container'' (PDict kvs) n = (Inl e', n)"
  using assms map_of_Some_key [OF assms]
  by (auto simp: Container_from_dict_classes_def Container_entry split: sum.splits if_splits)

lemma Set_classes_tagged:
  assumes "map_of kvs (PStr ''_CLS'') = Some name"
  shows "Set_from_dict_classes W ''Set'' (PDict kvs) n = (Inr (cls', ele_cls), n')
           \<Longrightarrow> get_class W name = Inr cls'"
    and "get_class W name = Inl e
           \<Longrightarrow> \<exists>e'. Set_from_dict_classes W ''Set'' (PDict kvs) n = (Inl e', n)"
  using assms map_of_Some_key [OF assms]
  by (auto simp: Set_from_dict_classes_def Set_entry split: sum.splits if_splits)

lemma from_dict_ContainerKind:
  assumes "own_from_dict (class_of W cls) = None" and "kind_of W cls = ContainerKind"
  shows "from_dict W cls d n =
     (case Container_from_dict_classes W cls d n of
        (Inl e, n') \<Rightarrow> (Inl e, d, n')
      | (Inr (cls', ele_cls), n') \<Rightarrow>
          (case py_getitem d (attr_key (ELE_ATTR (class_of W cls'))) of
             Inl e \<Rightarrow> (Inl e, d, n')
           | Inr l \<Rightarrow>
               (case py_iter l of
                  Inl e \<Rightarrow> (Inl e, d, n')
                | Inr dds \<Rightarrow>
                    (case decode_elements (\<lambda>dd k. from_dict W ele_cls dd k) dds n' of
                       (Inl e, dds', n'') \<Rightarrow>
                         (Inl e, write_back d (attr_key (ELE_ATTR (class_of W cls'))) dds', n'')
                     | (Inr elements, dds', n'') \<Rightarrow>
                         (case ELE_ATTR (class_of W cls') of
                            None \<Rightarrow>
                              (Inl TypeError,
                               write_back d (attr_key (ELE_ATTR (class_of W cls'))) dds', n'')
                          | Some attr \<Rightarrow>
                              (case construct W cls' [(attr, ListArg elements)] n'' of
                                 (r, n3) \<Rightarrow> (r, write_back d (PStr attr) dds', n3)))))))"
  using assms by (simp add: from_dict.simps [of W cls d n])

lemma from_dict_SetKind:
  assumes "own_from_dict (class_of W cls) = None" and "kind_of W cls = SetKind"
  shows "from_dict W cls d n =
     (case Set_from_dict_classes W cls d n of
        (Inl e, n') \<Rightarrow> (Inl e, d, n')
      | (Inr (cls', ele_cls), n') \<Rightarrow>
          (case py_getitem d (attr_key (ELE_ATTR (class_of W cls'))) of
             Inl e \<Rightarrow> (Inl e, d, n')
           | Inr l \<Rightarrow>
               (case py_iter l of
                  Inl e \<Rightarrow> (Inl e, d, n')
                | Inr dds \<Rightarrow>
                    (case decode_elements (\<lambda>dd k. from_dict W ele_cls dd k) dds n' of
                       (Inl e, dds', n'') \<Rightarrow>
                         (Inl e, write_back d (attr_key (ELE_ATTR (class_of W cls'))) dds', n'')
                     | (Inr elements, dds', n'') \<Rightarrow>
                         (case ELE_ATTR (class_of W cls') of
                            None \<Rightarrow>
                              (Inl TypeError,
                               write_back d (attr_key (ELE_ATTR (class_of W cls'))) dds', n'')
                          | Some attr \<Rightarrow>
                              (case construct W cls' [(attr, ListArg elements)] n'' of
                                 (r, n3) \<Rightarrow> (r, write_back d (PStr attr) dds', n3)))))))"
  using assms by (simp add: from_dict.simps [of W cls d n])

lemma zoo_kinds:
  "kind_of zoo ''Kennel'' = ContainerKind" "kind_of zoo ''AnimalSet'' = SetKind"
  "kind_of zoo ''Dog'' = PlainKind"
  "own_from_dict (class_of zoo ''Kennel'') = None" "own_from_dict (class_of zoo ''AnimalSet'') = None"
  by (simp_all add: kind_of_def zoo_class_simps zoo_classes_def)

lemma zoo_Container_decodes_AnimalSet:
  "from_dict zoo ''Container''
     (PDict [(PStr ''_CLS'', PStr ''zoo.AnimalSet''), (PStr ''_ELEMENT_CLS'', PStr ''zoo.Dog''),
             (PStr ''elements'', PList [PDict [(PStr ''name'', PStr ''rex'')]])]) 0
   = (Inr (PSet ''AnimalSet'' [(PStr ''rex'', dog ''rex'')]),
      PDict [(PStr ''_CLS'', PStr ''zoo.AnimalSet''), (PStr ''_ELEMENT_CLS'', PStr ''zoo.Dog''),
             (PStr ''elements'', PList [PDict [(PStr ''name'', PStr ''rex'')]])], 0)"
  by (simp add: from_dict_ContainerKind [OF Container_entry(1,2)] Container_from_dict_classes_def
      Container_entry zoo_get_class zoo_kinds zoo_class_simps zoo_classes_def attr_key_def
      zoo_Dog_from_dict Dog_from_dict_def construct_def Set_init_def Set_validate_def
      issubclass_def isinstance_def Set_add_iterable_def Set_add_def Set_get_key_def
      write_back_def dog_def Let_def)

text \<open>
  Claim C2, as the code has it. No entry point compares the class that \<^verbatim>\<open>"_CLS"\<close>
  resolves to with the class decoded through. For a dictionary with the key
  \<^verbatim>\<open>"_CLS"\<close>: decoding through \<^verbatim>\<open>Serializable\<close>, \<^verbatim>\<open>Container\<close> or \<^verbatim>\<open>Set\<close>
  raises an error when the name does not resolve to a class; when the dictionary also
  has the element class field, \<^verbatim>\<open>Container.from_dict\<close> and \<^verbatim>\<open>Set.from_dict\<close> have
  the same outcome; and what either returns is an instance of the class the name
  resolves to, whether or not that class is a subclass of the entry point.
\<close>

theorem tagged_decode_ignores_entry:
  assumes "map_of kvs (PStr ''_CLS'') = Some name"
  shows "(get_class W name = Inl e \<longrightarrow>
            (\<forall>entry\<in>{''Serializable'', ''Container'', ''Set''}.
               \<exists>e'. fst (from_dict W entry (PDict kvs) n) = Inl e'))
       \<and> (PStr ''_ELEMENT_CLS'' \<in> set (map fst kvs) \<longrightarrow>
            from_dict W ''Container'' (PDict kvs) n = from_dict W ''Set'' (PDict kvs) n)
       \<and> (\<forall>entry\<in>{''Container'', ''Set''}.
            get_class W name = Inr c \<and> fst (from_dict W entry (PDict kvs) n) = Inr obj \<longrightarrow>
              type_of obj = Some c)"
proof -
  note tagged = map_of_Some_key [OF assms]
  note C = from_dict_ContainerKind [OF Container_entry(1,2), of W "PDict kvs" n]
  note S = from_dict_SetKind [OF Set_entry(1,2), of W "PDict kvs" n]
  have fail: "\<exists>e'. fst (from_dict W entry (PDict kvs) n) = Inl e'"
    if e: "get_class W name = Inl e" and entry: "entry \<in> {''Serializable'', ''Container'', ''Set''}"
    for entry
  proof -
    have "\<exists>e'. fst (from_dict W ''Serializable'' (PDict kvs) n) = Inl e'"
      using e assms tagged by (simp add: from_dict_inherited [OF Serializable_entry])
    moreover have "\<exists>e'. fst (from_dict W ''Container'' (PDict kvs) n) = Inl e'"
      using Container_classes_tagged(2) [OF assms e, where n = n] by (auto simp: C)
    moreover have "\<exists>e'. fst (from_dict W ''Set'' (PDict kvs) n) = Inl e'"
      using Set_classes_tagged(2) [OF assms e, where n = n] by (auto simp: S)
    ultimately show ?thesis using entry by auto
  qed
  have same: "from_dict W ''Container'' (PDict kvs) n = from_dict W ''Set'' (PDict kvs) n"
    if "PStr ''_ELEMENT_CLS'' \<in> set (map fst kvs)"
    unfolding C S classes_agree [OF tagged that] by (rule refl)
  have typeC: "type_of obj = Some c"
    if c: "get_class W name = Inr c" and r: "fst (from_dict W ''Container'' (PDict kvs) n) = Inr obj"
  proof -
    from r obtain cls' ele_cls n' elements n'' attr n3 where
      cl: "Container_from_dict_classes W ''Container'' (PDict kvs) n = (Inr (cls', ele_cls), n')"
      and co: "construct W cls' [(attr, ListArg elements)] n'' = (Inr obj, n3)"
      unfolding C by (auto split: prod.splits sum.splits option.splits)
    from Container_classes_tagged(1) [OF assms cl] c have "cls' = c" by simp
    with construct_type [OF co] show ?thesis by simp
  qed
  have typeS: "type_of obj = Some c"
    if c: "get_class W name = Inr c" and r: "fst (from_dict W ''Set'' (PDict kvs) n) = Inr obj"
  proof -
    from r obtain cls' ele_cls n' elements n'' attr n3 where
      cl: "Set_from_dict_classes W ''Set'' (PDict kvs) n = (Inr (cls', ele_cls), n')"
      and co: "construct W cls' [(attr, ListArg elements)] n'' = (Inr obj, n3)"
      unfolding S by (auto split: prod.splits sum.splits option.splits)
    from Set_classes_tagged(1) [OF assms cl] c have "cls' = c" by simp
    with construct_type [OF co] show ?thesis by simp
  qed
  from fail same typeC typeS show ?thesis by auto
qed


theorem tagged_decode_ignores_entry_witness:
  "from_dict zoo ''Set''
     (PDict [(PStr ''_CLS'', PStr ''zoo.AnimalSet''), (PStr ''_ELEMENT_CLS'', PStr ''zoo.Dog''),
             (PStr ''elements'', PList [PDict [(PStr ''name'', PStr ''rex'')]])]) 0
   = (Inr (PSet ''AnimalSet'' [(PStr ''rex'', dog ''rex'')]),
      PDict [(PStr ''_CLS'', PStr ''zoo.AnimalSet''), (PStr ''_ELEMENT_CLS'', PStr ''zoo.Dog''),
             (PStr ''elements'', PList [PDict [(PStr ''name'', PStr ''rex'')]])], 0)
   \<and> type_of (PSet ''AnimalSet'' [(PStr ''rex'', dog ''rex'')]) = Some ''AnimalSet''
   \<and> fst (from_dict zoo ''Container''
     (PDict [(PStr ''_CLS'', PStr ''zoo.Nowhere''), (PStr ''_ELEMENT_CLS'', PStr ''zoo.Dog''),
             (PStr ''elements'', PList [])]) 0) = Inl AttributeError"
proof -
  let ?kvs = "[(PStr ''_CLS'', PStr ''zoo.AnimalSet''), (PStr ''_ELEMENT_CLS'', PStr ''zoo.Dog''),
             (PStr ''elements'', PList [PDict [(PStr ''name'', PStr ''rex'')]])]"
  have tag: "map_of ?kvs (PStr ''_CLS'') = Some (PStr ''zoo.AnimalSet'')" by simp
  note t = tagged_decode_ignores_entry [OF tag, of zoo _ 0]
  have "from_dict zoo ''Container'' (PDict ?kvs) 0 = from_dict zoo ''Set'' (PDict ?kvs) 0"
    using t [THEN conjunct2, THEN conjunct1] by simp
  then have a: "from_dict zoo ''Set'' (PDict ?kvs) 0
      = (Inr (PSet ''AnimalSet'' [(PStr ''rex'', dog ''rex'')]), PDict ?kvs, 0)"
    using zoo_Container_decodes_AnimalSet by simp
  have b: "type_of (PSet ''AnimalSet'' [(PStr ''rex'', dog ''rex'')]) = Some ''AnimalSet''"
    by simp
  have c: "fst (from_dict zoo ''Container''
     (PDict [(PStr ''_CLS'', PStr ''zoo.Nowhere''), (PStr ''_ELEMENT_CLS'', PStr ''zoo.Dog''),
             (PStr ''elements'', PList [])]) 0) = Inl AttributeError"
    by (simp add: from_dict_ContainerKind [OF Container_entry(1,2)] Container_from_dict_classes_def
      Container_entry get_class_def rsplit_dot_def zoo_def)
  from a b c show ?thesis by (intro conjI)
qed

text \<open>
  Claim C2 as stated fails: \<^verbatim>\<open>AnimalSet\<close> is not a subclass of \<^verbatim>\<open>Container\<close>, and
  \<^verbatim>\<open>Container.from_dict\<close> decodes the reflective dictionary of an \<^verbatim>\<open>AnimalSet\<close>
  into an \<^verbatim>\<open>AnimalSet\<close> without an error.
\<close>

theorem Container_entry_decodes_Set_counterexample:
  "\<not> issubclass zoo ''AnimalSet'' ''Container''
   \<and> get_class zoo (PStr ''zoo.AnimalSet'') = Inr ''AnimalSet''
   \<and> from_dict zoo ''Container''
     (PDict [(PStr ''_CLS'', PStr ''zoo.AnimalSet''), (PStr ''_ELEMENT_CLS'', PStr ''zoo.Dog''),
             (PStr ''elements'', PList [PDict [(PStr ''name'', PStr ''rex'')]])]) 0
   = (Inr (PSet ''AnimalSet'' [(PStr ''rex'', dog ''rex'')]),
      PDict [(PStr ''_CLS'', PStr ''zoo.AnimalSet''), (PStr ''_ELEMENT_CLS'', PStr ''zoo.Dog''),
             (PStr ''elements'', PList [PDict [(PStr ''name'', PStr ''rex'')]])], 0)"
  using zoo_Container_decodes_AnimalSet
  by (simp add: issubclass_def zoo_class_simps zoo_classes_def zoo_get_class)

subsection \<open>Round trip of a Container\<close>

lemma sequence_map:
  "\<forall>x\<in>set xs. h x = Inr (g x) \<Longrightarrow> sequence (map h xs) = Inr (map g xs)"
  by (induction xs) simp_all

lemma decode_elements_round_trip:
  assumes "\<forall>e\<in>set es. \<forall>k. \<exists>dd' k'. f (enc e) k = (Inr (dec e), dd', k')"
  shows "\<exists>dds' n'. decode_elements f (map enc es) n = (Inr (map dec es), dds', n')"
  using assms
proof (induction es arbitrary: n)
  case Nil
  then show ?case by simp
next
  case (Cons e es)
  from Cons.prems obtain dd' k' where first: "f (enc e) n = (Inr (dec e), dd', k')"
    by (meson list.set_intros(1))
  from Cons.prems have "\<forall>e\<in>set es. \<forall>k. \<exists>dd' k'. f (enc e) k = (Inr (dec e), dd', k')"
    by simp
  from Cons.IH [OF this, of k'] obtain dds' n'
    where "decode_elements f (map enc es) k' = (Inr (map dec es), dds', n')"
    by blast
  with first show ?case by simp
qed

lemma Container_validate_fields:
  assumes "Container_validate W c = Inr (ele_cls, attr)"
  shows "ELE_CLS (class_of W c) = Some ele_cls" and "ELE_ATTR (class_of W c) = Some attr"
  using assms by (auto simp: Container_validate_def split: option.splits if_splits)

lemma Container_init_empty:
  assumes "Container_validate W c = Inr (ele_cls, attr)"
  shows "Container_init W c [] = Inr (PContainer c [])"
  using assms by (simp add: Container_init_def)

lemma Container_serialize:
  assumes valid: "Container_validate W cls = Inr (ele_cls, attr)"
    and fld: "ELE_CLS_FIELD (class_of W cls) = Some fld"
    and names: "fld \<noteq> ''_CLS''" "fld \<noteq> attr" "attr \<noteq> ''_CLS''"
    and enc: "\<forall>e\<in>set es. recurse W e False = Inr (enc e)"
  shows "serialize W (PContainer cls es) reflective
           = Inr (PDict ((if reflective
                          then [(PStr ''_CLS'', PStr (get_class_name W cls)),
                                (PStr fld, PStr (get_class_name W ele_cls))]
                          else [])
                         @ [(PStr attr, PList (map enc es))]))"
  using Container_validate_fields [OF valid] fld names sequence_map [OF enc]
  by (simp add: serialize.simps [of W "PContainer cls es" reflective] reflective_head_def
      attr_key_def dict_update_all_def)

lemma zoo_names:
  "get_class_name zoo ''Kennel'' = ''zoo.Kennel''" "get_class_name zoo ''Dog'' = ''zoo.Dog''"
  "ELE_CLS_FIELD (class_of zoo ''Kennel'') = Some ''_ELEMENT_CLS''"
  by (simp_all add: get_class_name_def zoo_class_simps zoo_classes_def)

lemma zoo_dog_recurse:
  "recurse zoo (dog name) False = Inr (PDict [(PStr ''name'', PStr name)])"
  by (simp add: recurse.simps serialize.simps dog_def isinstance_def issubclass_def
      zoo_class_simps zoo_classes_def dict_update_all_def)

text \<open>
  Claim C1. Let \<open>cls\<close> be a valid \<^verbatim>\<open>Container\<close> subclass that inherits
  \<^verbatim>\<open>Container.from_dict\<close>, whose element attribute, element class field and
  \<^verbatim>\<open>"_CLS"\<close> are three different names, and (for the reflective mode) whose name and
  whose element class's name resolve back to these classes. Let \<open>es\<close> be instances of
  the element class such that the element class decodes the dictionary of every element
  \<open>e\<close> to an instance \<open>dec e\<close>. Then the constructor stores \<open>es\<close>, \<^verbatim>\<open>serialize\<close>
  succeeds in either mode, and \<^verbatim>\<open>from_dict\<close> of the result is a container of the same
  class that holds \<open>dec e\<close> for each \<open>e\<close> of \<open>es\<close>, position by position, duplicates
  included. For an element class that decodes what it serializes (\<open>dec\<close> the identity,
  as in the witness) the decoded container holds the list \<open>es\<close> itself.
\<close>

theorem container_round_trip:
  assumes valid: "Container_validate W cls = Inr (ele_cls, attr)"
    and own: "own_from_dict (class_of W cls) = None"
    and kind: "kind_of W cls = ContainerKind"
    and fld: "ELE_CLS_FIELD (class_of W cls) = Some fld"
    and names: "fld \<noteq> ''_CLS''" "fld \<noteq> attr" "attr \<noteq> ''_CLS''"
    and reg: "reflective \<longrightarrow> get_class W (PStr (get_class_name W cls)) = Inr cls
                \<and> get_class W (PStr (get_class_name W ele_cls)) = Inr ele_cls"
    and inst: "\<forall>e\<in>set es. isinstance W e ele_cls \<and> isinstance W (dec e) ele_cls"
    and elem: "\<forall>e\<in>set es. recurse W e False = Inr (enc e)
                \<and> (\<forall>k. \<exists>dd' k'. from_dict W ele_cls (enc e) k = (Inr (dec e), dd', k'))"
  shows "Container_init W cls [(attr, ListArg es)] = Inr (PContainer cls es)
       \<and> (\<exists>d. serialize W (PContainer cls es) reflective = Inr d
            \<and> (\<exists>d' n'. from_dict W cls d n = (Inr (PContainer cls (map dec es)), d', n')))"
proof -
  let ?head = "if reflective
               then [(PStr ''_CLS'', PStr (get_class_name W cls)),
                     (PStr fld, PStr (get_class_name W ele_cls))]
               else []"
  let ?d = "PDict (?head @ [(PStr attr, PList (map enc es))])"
  note fields = Container_validate_fields [OF valid]
  from inst have inst1: "\<forall>e\<in>set es. isinstance W e ele_cls"
    and inst2: "\<forall>e\<in>set (map dec es). isinstance W e ele_cls"
    by simp_all
  have init: "Container_init W cls [(attr, ListArg es)] = Inr (PContainer cls es)"
    by (rule Container_init_list [OF valid inst1])
  have init': "Container_init W cls [(attr, ListArg (map dec es))] = Inr (PContainer cls (map dec es))"
    by (rule Container_init_list [OF valid inst2])
  from elem have enc: "\<forall>e\<in>set es. recurse W e False = Inr (enc e)" by simp
  have ser: "serialize W (PContainer cls es) reflective = Inr ?d"
    by (rule Container_serialize [OF valid fld names enc])
  have classes: "Container_from_dict_classes W cls ?d n = (Inr (cls, ele_cls), n)"
  proof (cases reflective)
    case True
    with reg have "get_class W (PStr (get_class_name W cls)) = Inr cls"
      "get_class W (PStr (get_class_name W ele_cls)) = Inr ele_cls" by simp_all
    with True fld names kind show ?thesis
      by (simp add: Container_from_dict_classes_def attr_key_def)
  next
    case False
    with fld names fields show ?thesis
      by (simp add: Container_from_dict_classes_def construct_def kind
          Container_init_empty [OF valid])
  qed
  have item: "py_getitem ?d (PStr attr) = Inr (PList (map enc es))"
    using names by simp
  from elem
  have "\<forall>e\<in>set es. \<forall>k. \<exists>dd' k'.
          (\<lambda>dd k. from_dict W ele_cls dd k) (enc e) k = (Inr (dec e), dd', k')"
    by simp
  from decode_elements_round_trip
         [where f = "\<lambda>dd k. from_dict W ele_cls dd k" and enc = enc and dec = dec and es = es
            and n = n, OF this]
  obtain dds' n' where
    dec: "decode_elements (\<lambda>dd k. from_dict W ele_cls dd k) (map enc es) n
            = (Inr (map dec es), dds', n')"
    by blast
  have "from_dict W cls ?d n
          = (Inr (PContainer cls (map dec es)), write_back ?d (PStr attr) dds', n')"
    using classes item dec fields init'
    by (simp add: from_dict_ContainerKind [OF own kind] attr_key_def construct_def kind)
  with init ser show ?thesis by blast
qed

theorem container_round_trip_witness:
  "Container_init zoo ''Kennel'' [(''elements'', ListArg [dog ''rex'', dog ''fido'', dog ''rex''])]
     = Inr (PContainer ''Kennel'' [dog ''rex'', dog ''fido'', dog ''rex''])
   \<and> serialize zoo (PContainer ''Kennel'' [dog ''rex'', dog ''fido'', dog ''rex'']) True
     = Inr (PDict [(PStr ''_CLS'', PStr ''zoo.Kennel''), (PStr ''_ELEMENT_CLS'', PStr ''zoo.Dog''),
                   (PStr ''elements'',
                    PList [PDict [(PStr ''name'', PStr ''rex'')], PDict [(PStr ''name'', PStr ''fido'')],
                           PDict [(PStr ''name'', PStr ''rex'')]])])
   \<and> fst (from_dict zoo ''Kennel''
        (PDict [(PStr ''_CLS'', PStr ''zoo.Kennel''), (PStr ''_ELEMENT_CLS'', PStr ''zoo.Dog''),
                (PStr ''elements'',
                 PList [PDict [(PStr ''name'', PStr ''rex'')], PDict [(PStr ''name'', PStr ''fido'')],
                        PDict [(PStr ''name'', PStr ''rex'')]])]) 0)
     = Inr (PContainer ''Kennel'' [dog ''rex'', dog ''fido'', dog ''rex''])"
proof -
  let ?es = "[dog ''rex'', dog ''fido'', dog ''rex'']"
  let ?enc = "\<lambda>e. case py_getattr e ''name'' of Inr v \<Rightarrow> PDict [(PStr ''name'', v)] | Inl x \<Rightarrow> PNone"
  let ?d = "PDict [(PStr ''_CLS'', PStr ''zoo.Kennel''), (PStr ''_ELEMENT_CLS'', PStr ''zoo.Dog''),
                   (PStr ''elements'',
                    PList [PDict [(PStr ''name'', PStr ''rex'')], PDict [(PStr ''name'', PStr ''fido'')],
                           PDict [(PStr ''name'', PStr ''rex'')]])]"
  have names: "''_ELEMENT_CLS'' \<noteq> ''_CLS''" "''_ELEMENT_CLS'' \<noteq> ''elements''"
    "''elements'' \<noteq> ''_CLS''"
    by simp_all
  have reg: "True \<longrightarrow> get_class zoo (PStr (get_class_name zoo ''Kennel'')) = Inr ''Kennel''
                \<and> get_class zoo (PStr (get_class_name zoo ''Dog'')) = Inr ''Dog''"
    by (simp add: zoo_names zoo_get_class)
  have inst: "\<forall>e\<in>set ?es. isinstance zoo e ''Dog'' \<and> isinstance zoo (id e) ''Dog''"
    by (simp add: zoo_dog_instance)
  have elem: "\<forall>e\<in>set ?es. recurse zoo e False = Inr (?enc e)
                \<and> (\<forall>k. \<exists>dd' k'. from_dict zoo ''Dog'' (?enc e) k = (Inr (id e), dd', k'))"
    by (simp add: zoo_dog_recurse zoo_Dog_from_dict Dog_from_dict_def) (simp add: dog_def)
  note t = container_round_trip [OF zoo_Kennel_valid zoo_kinds(4) zoo_kinds(1) zoo_names(3)
      names reg inst elem, of 0]
  have ser: "serialize zoo (PContainer ''Kennel'' ?es) True = Inr ?d"
    using Container_serialize [OF zoo_Kennel_valid zoo_names(3) names, of ?es ?enc True]
    by (simp add: zoo_dog_recurse zoo_names) (simp add: dog_def)
  from t ser have "\<exists>d' n'. from_dict zoo ''Kennel'' ?d 0 = (Inr (PContainer ''Kennel'' ?es), d', n')"
    by auto
  then have "fst (from_dict zoo ''Kennel'' ?d 0) = Inr (PContainer ''Kennel'' ?es)"
    by auto
  with t ser show ?thesis by blast
qed

end
